theory Spec2Isabelle
  imports Main "HOL-Library.Char_ord" "HOL-Library.AList"
begin

section \<open>Python string primitives\<close>

text \<open>
  A Python \<open>str\<close> is modelled by \<^typ>\<open>string\<close>: a character is a code point below 256,
  which covers the ASCII script files the tool works on. The functions below are the
  \<open>str\<close> methods and slices the sources use, each total as in Python.
\<close>

abbreviation LF :: char where "LF \<equiv> CHR 0x0A"
abbreviation CR :: char where "CR \<equiv> CHR 0x0D"
abbreviation TAB :: char where "TAB \<equiv> CHR 0x09"

text \<open>\<open>str.isspace\<close> on one character, which is also the class \<open>\s\<close> of \<open>re\<close>.\<close>

definition is_space :: "char \<Rightarrow> bool" where
  "is_space c \<longleftrightarrow> c \<in> set [TAB, LF, CHR 0x0B, CHR 0x0C, CR, CHR 0x1C, CHR 0x1D,
      CHR 0x1E, CHR 0x1F, CHR '' '', CHR 0x85, CHR 0xA0]"

definition is_digit :: "char \<Rightarrow> bool" where
  "is_digit c \<longleftrightarrow> CHR ''0'' \<le> c \<and> c \<le> CHR ''9''"

definition is_lower :: "char \<Rightarrow> bool" where
  "is_lower c \<longleftrightarrow> CHR ''a'' \<le> c \<and> c \<le> CHR ''z''"

definition is_upper :: "char \<Rightarrow> bool" where
  "is_upper c \<longleftrightarrow> CHR ''A'' \<le> c \<and> c \<le> CHR ''Z''"

text \<open>The character classes \<open>[a-zA-Z0-9_]\<close> and \<open>[a-zA-Z0-9_\.:]\<close> of the identifier regex.\<close>

definition is_name_start :: "char \<Rightarrow> bool" where
  "is_name_start c \<longleftrightarrow> is_lower c \<or> is_upper c \<or> is_digit c \<or> c = CHR ''_''"

definition is_name_char :: "char \<Rightarrow> bool" where
  "is_name_char c \<longleftrightarrow> is_name_start c \<or> c = CHR ''.'' \<or> c = CHR '':''"

definition lstrip :: "string \<Rightarrow> string" where
  "lstrip s = dropWhile is_space s"

definition rstrip :: "string \<Rightarrow> string" where
  "rstrip s = rev (dropWhile is_space (rev s))"

definition strip :: "string \<Rightarrow> string" where
  "strip s = rstrip (lstrip s)"


text \<open>\<open>s.split(d)\<close> for a one-character separator: never the empty list.\<close>

fun split_on :: "char \<Rightarrow> string \<Rightarrow> string list" where
  "split_on d [] = [[]]"
| "split_on d (c # cs) =
     (if c = d then [] # split_on d cs
      else (case split_on d cs of [] \<Rightarrow> [[c]] | l # ls \<Rightarrow> (c # l) # ls))"

text \<open>\<open>sep.join(ls)\<close>\<close>

fun join :: "string \<Rightarrow> string list \<Rightarrow> string" where
  "join sep [] = []"
| "join sep [l] = l"
| "join sep (l # m # ls) = l @ sep @ join sep (m # ls)"

definition starts_with :: "string \<Rightarrow> string \<Rightarrow> bool" where
  "starts_with p s \<longleftrightarrow> take (length p) s = p"

definition ends_with :: "string \<Rightarrow> string \<Rightarrow> bool" where
  "ends_with p s \<longleftrightarrow> length p \<le> length s \<and> drop (length s - length p) s = p"

text \<open>\<open>s.find(d)\<close> and \<open>s.rfind(d)\<close> for one character; \<open>None\<close> is Python's -1.\<close>

fun find_char :: "char \<Rightarrow> string \<Rightarrow> nat option" where
  "find_char d [] = None"
| "find_char d (c # cs) = (if c = d then Some 0 else map_option Suc (find_char d cs))"

definition rfind_char :: "char \<Rightarrow> string \<Rightarrow> nat option" where
  "rfind_char d s = map_option (\<lambda>k. length s - 1 - k) (find_char d (rev s))"

text \<open>\<open>s.find(sub)\<close> and \<open>sub in s\<close>\<close>

fun find_sub :: "string \<Rightarrow> string \<Rightarrow> nat option" where
  "find_sub sub [] = (if sub = [] then Some 0 else None)"
| "find_sub sub (c # cs) =
     (if starts_with sub (c # cs) then Some 0 else map_option Suc (find_sub sub cs))"

definition contains :: "string \<Rightarrow> string \<Rightarrow> bool" where
  "contains sub s \<longleftrightarrow> find_sub sub s \<noteq> None"

text \<open>\<open>s.replace(old, new, 1)\<close>: the first occurrence only.\<close>

fun replace_first :: "string \<Rightarrow> string \<Rightarrow> string \<Rightarrow> string" where
  "replace_first [] old new = (if old = [] then new else [])"
| "replace_first (c # cs) old new =
     (if starts_with old (c # cs) then new @ drop (length old) (c # cs)
      else c # replace_first cs old new)"

text \<open>\<open>s.replace('\r\n', '\n')\<close>\<close>

fun replace_crlf :: "string \<Rightarrow> string" where
  "replace_crlf (c # d # cs) =
     (if c = CR \<and> d = LF then LF # replace_crlf cs else c # replace_crlf (d # cs))"
| "replace_crlf cs = cs"

text \<open>\<open>s.replace('\r', '\n')\<close>\<close>

definition replace_cr :: "string \<Rightarrow> string" where
  "replace_cr s = map (\<lambda>c. if c = CR then LF else c) s"

text \<open>
  \<open>_find_comment_pos\<close>, \<open>_find_comment_start\<close> and \<open>_find_comment\<close> (one body in three
  classes): the index of the first \<open>#\<close> outside double quotes, a quote counting unless
  the character before it is a backslash.
\<close>

fun find_comment_from :: "bool \<Rightarrow> char option \<Rightarrow> nat \<Rightarrow> string \<Rightarrow> nat option" where
  "find_comment_from in_quotes prev i [] = None"
| "find_comment_from in_quotes prev i (c # cs) =
     (if c = CHR 0x22 \<and> prev \<noteq> Some (CHR 0x5C)
        then find_comment_from (\<not> in_quotes) (Some c) (Suc i) cs
      else if c = CHR ''#'' \<and> \<not> in_quotes then Some i
      else find_comment_from in_quotes (Some c) (Suc i) cs)"

definition find_comment_pos :: "string \<Rightarrow> nat option" where
  "find_comment_pos line = find_comment_from False None 0 line"

text \<open>The slice \<open>line[:hash_pos]\<close> taken when \<open>hash_pos >= 0\<close>, the line itself otherwise.\<close>

definition cut_comment :: "string \<Rightarrow> string" where
  "cut_comment line = (case find_comment_pos line of Some h \<Rightarrow> take h line | None \<Rightarrow> line)"

section \<open>pdx\_parser.py: the tree\<close>

datatype node_type = ROOT | BLOCK | PROPERTY | LIST_ITEM | COMMENT | EMPTY_LINE

datatype pdx_node = PdxNode
  (node_type: node_type)
  (name: string)
  (val: string)
  (children: "pdx_node list")
  (comment: string)
  (is_commented: bool)
  (raw_line: string)
  (indent: string)

definition add_child :: "pdx_node \<Rightarrow> pdx_node \<Rightarrow> pdx_node" where
  "add_child p c = PdxNode (node_type p) (name p) (val p) (children p @ [c]) (comment p)
     (is_commented p) (raw_line p) (indent p)"

subsection \<open>The regular expressions of \<open>PdxParser.parse\<close>\<close>

text \<open>
  Each matcher is applied by the parser to \<open>remaining\<close>, a non-empty stripped piece of one
  line (no line feed, no white space at either end), and returns the groups of the match.

  \<open>^([a-zA-Z0-9_][a-zA-Z0-9_\.:\s]*?)\s*=\s*\{(.*)$\<close>: the equals sign of the pattern is
  the first one of the text, since neither the group nor \<open>\s\<close> can take one; every
  character before it is in the group's class; the lazy group ends before the white space
  in front of the equals sign.
\<close>

definition match_block :: "string \<Rightarrow> (string \<times> string) option" where
  "match_block s =
     (let pre = takeWhile (\<lambda>c. c \<noteq> CHR ''='') s;
          post = dropWhile (\<lambda>c. c \<noteq> CHR ''='') s
      in if pre = [] \<or> post = [] then None
         else if \<not> is_name_start (hd pre) then None
         else if \<not> list_all (\<lambda>c. is_name_char c \<or> is_space c) (tl pre) then None
         else (case lstrip (tl post) of
                 [] \<Rightarrow> None
               | c # rest \<Rightarrow> if c = CHR ''{'' \<and> LF \<notin> set rest
                              then Some (rstrip pre, rest) else None))"

text \<open>\<open>^([a-zA-Z0-9_][a-zA-Z0-9_\.:]*)\s*=\s*(.+)$\<close>\<close>

definition match_prop :: "string \<Rightarrow> (string \<times> string) option" where
  "match_prop s =
     (case s of [] \<Rightarrow> None
      | c # cs \<Rightarrow>
          if \<not> is_name_start c then None
          else (case lstrip (dropWhile is_name_char cs) of
                  [] \<Rightarrow> None
                | e # after \<Rightarrow>
                    if e \<noteq> CHR ''='' then None
                    else let v = lstrip after
                         in if v = [] \<or> LF \<in> set v then None
                            else Some (c # takeWhile is_name_char cs, v)))"

text \<open>\<open>^([a-zA-Z0-9_\.:]+)(.*)$\<close>\<close>

definition match_list :: "string \<Rightarrow> (string \<times> string) option" where
  "match_list s =
     (let g = takeWhile is_name_char s; rest = dropWhile is_name_char s
      in if g = [] \<or> LF \<in> set rest then None else Some (g, rest))"

subsection \<open>\<open>PdxParser._parse_inline_content\<close>\<close>

definition is_blank :: "char \<Rightarrow> bool" where
  "is_blank c \<longleftrightarrow> c = CHR '' '' \<or> c = TAB"

definition is_token_end :: "char \<Rightarrow> bool" where
  "is_token_end c \<longleftrightarrow> is_blank c \<or> c = CHR ''='' \<or> c = CHR ''{'' \<or> c = CHR ''}''"

definition is_value_end :: "char \<Rightarrow> bool" where
  "is_value_end c \<longleftrightarrow> is_blank c \<or> c = CHR ''{'' \<or> c = CHR ''}''"

text \<open>
  The inner loop \<open>while i < len(content) and depth > 0\<close> after an opening brace: the
  characters it steps over (the closing brace included) and the text left.
\<close>

fun scan_block :: "nat \<Rightarrow> string \<Rightarrow> string \<times> string" where
  "scan_block depth [] = ([], [])"
| "scan_block depth (c # cs) =
     (if depth = 0 then ([], c # cs)
      else let d = (if c = CHR ''{'' then Suc depth else if c = CHR ''}'' then depth - 1 else depth);
               r = scan_block d cs
           in (c # fst r, snd r))"

lemma scan_block_length [termination_simp]:
  "length (fst (scan_block d s)) \<le> length s \<and> length (snd (scan_block d s)) \<le> length s"
  by (induction d s rule: scan_block.induct) (auto simp: Let_def)

text \<open>
  The loop works on an index \<open>i\<close> into \<open>content\<close> and only moves forward, so the model
  carries the text from \<open>i\<close> on. \<open>content[block_start:i-1]\<close> is what the inner loop
  stepped over without its last character, whether that is the closing brace or not.
\<close>

function parse_inline_loop :: "string \<Rightarrow> pdx_node list" where
  "parse_inline_loop content =
     (let s = dropWhile is_blank content
      in if s = [] then []
         else
           let token = strip (takeWhile (\<lambda>c. \<not> is_token_end c) s);
               s1 = dropWhile (\<lambda>c. \<not> is_token_end c) s
           in if token = [] then parse_inline_loop (drop 1 s1)
              else
                let s2 = dropWhile is_blank s1
                in (case s2 of
                      [] \<Rightarrow> [PdxNode LIST_ITEM [] token [] [] False [] []]
                    | e # s3 \<Rightarrow>
                        if e = CHR ''='' then
                          (let s4 = dropWhile is_blank s3
                           in case s4 of
                                [] \<Rightarrow> [PdxNode PROPERTY token [] [] [] False [] []]
                              | b # s5 \<Rightarrow>
                                  if b = CHR ''{'' then
                                    (let block_content = strip (butlast (fst (scan_block 1 s5)))
                                     in PdxNode BLOCK token []
                                          (if block_content = [] then []
                                           else parse_inline_loop (strip block_content))
                                          [] False [] []
                                        # parse_inline_loop (snd (scan_block 1 s5)))
                                  else
                                    PdxNode PROPERTY token
                                      (strip (takeWhile (\<lambda>c. \<not> is_value_end c) s4)) [] [] False [] []
                                    # parse_inline_loop (dropWhile (\<lambda>c. \<not> is_value_end c) s4))
                        else PdxNode LIST_ITEM [] token [] [] False [] []
                             # parse_inline_loop s2))"
  by pat_completeness auto

lemma length_strip_le [termination_simp]: "length (strip s) \<le> length s"
proof -
  have "length (rstrip t) \<le> length t" for t
    unfolding rstrip_def by (metis length_dropWhile_le length_rev)
  then have "length (strip s) \<le> length (lstrip s)"
    unfolding strip_def by blast
  also have "\<dots> \<le> length s"
    unfolding lstrip_def by (rule length_dropWhile_le)
  finally show ?thesis .
qed

lemma dropWhile_shorter: "takeWhile P s \<noteq> [] \<Longrightarrow> length (dropWhile P s) < length s"
  by (cases s) (auto simp: le_imp_less_Suc length_dropWhile_le split: if_splits)

lemma Cons_dropWhile_shorter: "x # xs = dropWhile P ys \<Longrightarrow> length xs < length ys"
  by (metis Suc_le_eq length_Cons length_dropWhile_le)

lemma strip_Nil [simp]: "strip [] = []"
  by (simp add: strip_def lstrip_def rstrip_def)

termination parse_inline_loop
proof (relation "measure length", goal_cases)
  case 1
  show ?case by simp
next
  case (2 content s token s1)
  have "length s1 \<le> length s" using 2 by (simp add: length_dropWhile_le)
  moreover have "length s \<le> length content" using 2 by (simp add: length_dropWhile_le)
  moreover have "s \<noteq> []" using 2 by simp
  ultimately show ?case by (cases s1) auto
next
  case (3 content s token s1 s2 e s3 s4 b s5 block_content)
  have a: "length s1 < length s"
    using 3 by (auto intro!: dropWhile_shorter)
  have "length (strip block_content) \<le> length block_content"
    by (rule length_strip_le)
  also have "\<dots> \<le> length (butlast (fst (scan_block 1 s5)))"
    unfolding 3 by (rule length_strip_le)
  also have "\<dots> \<le> length s5"
    using scan_block_length[of 1 s5] by (simp add: diff_le_mono2 le_diff_conv trans_le_add1)
  finally have "length (strip block_content) \<le> length s5" .
  moreover have "length s5 < length s3"
    using 3 Cons_dropWhile_shorter[of b s5 is_blank s3] by simp
  moreover have "length s3 < length s1"
    using 3 Cons_dropWhile_shorter[of e s3 is_blank s1] by simp
  moreover have "length s \<le> length content" using 3 by (simp add: length_dropWhile_le)
  ultimately show ?case using a by simp
next
  case (4 content s token s1 s2 e s3 s4 b s5)
  have a: "length s1 < length s"
    using 4 by (auto intro!: dropWhile_shorter)
  have "length (snd (scan_block 1 s5)) \<le> length s5"
    using scan_block_length[of 1 s5] by simp
  moreover have "length s5 < length s3"
    using 4 Cons_dropWhile_shorter[of b s5 is_blank s3] by simp
  moreover have "length s3 < length s1"
    using 4 Cons_dropWhile_shorter[of e s3 is_blank s1] by simp
  moreover have "length s \<le> length content" using 4 by (simp add: length_dropWhile_le)
  ultimately show ?case using a by simp
next
  case (5 content s token s1 s2 e s3 s4 b s5)
  have a: "length s1 < length s"
    using 5 by (auto intro!: dropWhile_shorter)
  have "length (dropWhile (\<lambda>c. \<not> is_value_end c) s4) \<le> length s4"
    by (rule length_dropWhile_le)
  moreover have "length s4 \<le> length s3"
    using 5 by (simp add: length_dropWhile_le)
  moreover have "length s3 < length s1"
    using 5 Cons_dropWhile_shorter[of e s3 is_blank s1] by simp
  moreover have "length s \<le> length content" using 5 by (simp add: length_dropWhile_le)
  ultimately show ?case using a by simp
next
  case (6 content s token s1 s2 e s3)
  have a: "length s1 < length s"
    using 6 by (auto intro!: dropWhile_shorter)
  have "length s2 \<le> length s1" using 6 by (simp add: length_dropWhile_le)
  moreover have "length s \<le> length content" using 6 by (simp add: length_dropWhile_le)
  ultimately show ?case using a by simp
qed

definition parse_inline_content :: "string \<Rightarrow> pdx_node list" where
  "parse_inline_content content = parse_inline_loop (strip content)"

declare parse_inline_loop.simps [simp del]

subsection \<open>\<open>PdxParser.parse\<close>\<close>

text \<open>
  The stack of open blocks, innermost first. Python appends a new block to its parent's
  children and pushes the same object; here the block is pushed and joins its parent's
  children when it is popped (and, for blocks still open at the end of the text, in
  \<open>close_all\<close>). The parent receives no other child while the block is open, so the
  children come in the same order.
\<close>

definition root_node :: pdx_node where
  "root_node = PdxNode ROOT ''__root__'' [] [] [] False [] []"

text \<open>\<open>stack[-1].children.append(n)\<close>\<close>

fun stack_append :: "pdx_node \<Rightarrow> pdx_node list \<Rightarrow> pdx_node list" where
  "stack_append n [] = []"
| "stack_append n (t # st) = add_child t n # st"

text \<open>\<open>if len(stack) > 1: stack.pop()\<close>\<close>

fun stack_pop :: "pdx_node list \<Rightarrow> pdx_node list" where
  "stack_pop (t # p # st) = add_child p t # st"
| "stack_pop st = st"

primrec pop_n :: "nat \<Rightarrow> pdx_node list \<Rightarrow> pdx_node list" where
  "pop_n 0 st = st"
| "pop_n (Suc n) st = pop_n n (stack_pop st)"

fun close_all :: "pdx_node list \<Rightarrow> pdx_node" where
  "close_all [] = root_node"
| "close_all [t] = t"
| "close_all (t # p # st) = close_all (add_child p t # st)"

text \<open>
  \<open>leading_close\<close>: the loop strips white space, takes one closing brace, and repeats;
  so it counts the closing braces in front of the first character that is neither white
  space nor a closing brace.
\<close>

fun count_leading_close :: "string \<Rightarrow> nat" where
  "count_leading_close [] = 0"
| "count_leading_close (c # cs) =
     (if is_space c then count_leading_close cs
      else if c = CHR ''}'' then Suc (count_leading_close cs)
      else 0)"

text \<open>The loop that cuts \<open>remaining\<close> after each of the \<open>leading_close\<close> braces.\<close>

primrec drop_closes :: "nat \<Rightarrow> string \<Rightarrow> string" where
  "drop_closes 0 r = r"
| "drop_closes (Suc n) r =
     drop_closes n (case find_char (CHR ''}'') r of
                      Some pos \<Rightarrow> strip (drop (Suc pos) r)
                    | None \<Rightarrow> r)"

text \<open>
  One iteration of the loop over the lines. \<open>open_braces\<close> and \<open>close_braces\<close> are
  computed by the source and never read, and the test for a commented block opener ends
  in \<open>pass\<close>: neither changes the result.
\<close>

definition parse_step :: "pdx_node list \<Rightarrow> string \<Rightarrow> pdx_node list" where
  "parse_step stack line =
     (let stripped = strip line;
          ind = (if stripped \<noteq> [] then take (length line - length stripped) line else [])
      in if stripped = [] then stack_append (PdxNode EMPTY_LINE [] [] [] [] False line ind) stack
         else
           let line_for_braces = cut_comment stripped;
               leading_close = count_leading_close line_for_braces;
               stack1 = pop_n leading_close stack;
               remaining = drop_closes leading_close stripped
           in if remaining = [] then stack1
              else if starts_with ''#'' remaining
                then stack_append (PdxNode COMMENT [] remaining [] [] False line ind) stack1
              else (case match_block remaining of
                  Some (g1, g2) \<Rightarrow>
                    let nm = strip g1;
                        cm = (case find_comment_pos g2 of
                                Some h \<Rightarrow> strip (drop h g2) | None \<Rightarrow> []);
                        rest = strip (cut_comment g2)
                    in if ends_with ''}'' rest then
                         let inner = strip (butlast rest)
                         in stack_append
                              (PdxNode BLOCK nm []
                                 (if inner \<noteq> [] then parse_inline_content inner else [])
                                 cm False line ind) stack1
                       else PdxNode BLOCK nm [] [] cm False line ind # stack1
                | None \<Rightarrow>
                   (case match_prop remaining of
                      Some (g1, g2) \<Rightarrow>
                        let v = strip g2;
                            cm = (case find_comment_pos v of
                                    Some h \<Rightarrow> strip (drop h v) | None \<Rightarrow> []);
                            v' = (case find_comment_pos v of
                                    Some h \<Rightarrow> strip (take h v) | None \<Rightarrow> v)
                        in stack_append (PdxNode PROPERTY (strip g1) v' [] cm False line ind) stack1
                    | None \<Rightarrow>
                       (case match_list remaining of
                          Some (g1, g2) \<Rightarrow>
                            let rest = strip g2;
                                cm = (if starts_with ''#'' rest then rest else [])
                            in stack_append (PdxNode LIST_ITEM [] g1 [] cm False line ind) stack1
                        | None \<Rightarrow>
                            stack_append (PdxNode COMMENT [] remaining [] [] False line ind)
                              stack1))))"

definition parse :: "string \<Rightarrow> pdx_node" where
  "parse content =
     close_all (foldl parse_step [root_node] (split_on LF (replace_cr (replace_crlf content))))"

section \<open>pdx\_parser.py: \<open>PdxSerializer\<close>\<close>







section \<open>structural\_merger.py: brace counting\<close>

text \<open>
  \<open>StructuralMerger._count_braces\<close>: the braces of each line in front of its comment.
  \<open>StructureValidator._validate_braces\<close> computes the same two sums.
\<close>

definition count_braces :: "string \<Rightarrow> nat \<times> nat" where
  "count_braces content =
     (let ls = map cut_comment (split_on LF content)
      in (sum_list (map (\<lambda>l. count_list l (CHR ''{'')) ls),
          sum_list (map (\<lambda>l. count_list l (CHR ''}'')) ls)))"

definition validate_braces :: "string \<Rightarrow> bool" where
  "validate_braces content \<longleftrightarrow> fst (count_braces content) = snd (count_braces content)"









section \<open>paradox\_rules.py: the rule book\<close>

datatype merge_strategy = ACCUMULATE_LIST | REPLACE_WHOLE | RECURSIVE | KEEP_BASE

datatype top_level_strategy = ATOMIC_ACCUMULATE | MERGEABLE_CONTAINER

text \<open>
  \<open>$\<close> without \<open>re.MULTILINE\<close>: the end of the text, or the place in front of a line feed
  that ends the text.
\<close>

definition at_end :: "string \<Rightarrow> bool" where
  "at_end s \<longleftrightarrow> s = [] \<or> s = [LF]"

text \<open>The class \<open>[a-z_]\<close>.\<close>

definition is_lower_us :: "char \<Rightarrow> bool" where
  "is_lower_us c \<longleftrightarrow> is_lower c \<or> c = CHR ''_''"

text \<open>\<open>\d+\<close> followed by the rest of the pattern, given as a test on the text left.\<close>

definition digits_then :: "(string \<Rightarrow> bool) \<Rightarrow> string \<Rightarrow> bool" where
  "digits_then k s \<longleftrightarrow> takeWhile is_digit s \<noteq> [] \<and> k (dropWhile is_digit s)"

text \<open>A literal dot followed by the rest of the pattern.\<close>

definition dot_then :: "(string \<Rightarrow> bool) \<Rightarrow> string \<Rightarrow> bool" where
  "dot_then k s \<longleftrightarrow> (case s of [] \<Rightarrow> False | c # cs \<Rightarrow> c = CHR ''.'' \<and> k cs)"

text \<open>\<open>is_event_block\<close>: \<open>re.match(r'^[a-z_]+\.\d+$', block_name)\<close>\<close>

definition is_event_block :: "string \<Rightarrow> bool" where
  "is_event_block block_name \<longleftrightarrow>
     takeWhile is_lower_us block_name \<noteq> []
     \<and> dot_then (digits_then at_end) (dropWhile is_lower_us block_name)"

text \<open>\<open>is_date_block\<close>: \<open>re.match(r'^\d+\.\d+\.\d+$', block_name)\<close>\<close>

definition is_date_block :: "string \<Rightarrow> bool" where
  "is_date_block block_name \<longleftrightarrow>
     digits_then (dot_then (digits_then (dot_then (digits_then at_end)))) block_name"

text \<open>The pattern \<open>^\d+$\<close> of \<open>BLOCK_PATTERNS\<close> (\<open>province_id\<close>).\<close>

definition is_province_id :: "string \<Rightarrow> bool" where
  "is_province_id block_name \<longleftrightarrow> digits_then at_end block_name"

definition SAFE_LIST_BLOCKS :: "string list" where
  "SAFE_LIST_BLOCKS = [''on_actions'', ''events'', ''random_events'', ''random_on_actions'',
     ''first_valid'']"

definition NO_MERGE_BLOCKS :: "string list" where
  "NO_MERGE_BLOCKS = [''trigger'', ''limit'', ''effect'', ''immediate'', ''after'',
     ''on_trigger_fail'',
     ''modifier'', ''ai_will_do'', ''ai_check_interval'', ''ai_chance'', ''weight'',
     ''weight_multiplier'', ''compare_modifier'', ''opinion_modifier'', ''mult'', ''add'',
     ''factor'',
     ''option'', ''desc'', ''title'', ''theme'', ''override_background'', ''left_portrait'',
     ''right_portrait'', ''lower_left_portrait'', ''lower_center_portrait'',
     ''lower_right_portrait'', ''artifact'', ''override_icon'', ''cooldown'',
     ''is_shown'', ''is_valid'', ''is_valid_showing_failures_only'', ''cost'',
     ''minimum_cost'', ''confirm_text'', ''selection_tooltip'',
     ''can_send'', ''can_be_picked'', ''is_highlighted'', ''on_accept'', ''on_decline'',
     ''on_send'', ''on_auto_accept'', ''reply_item'', ''send_option'', ''greeting'',
     ''notification_text'',
     ''on_ready'', ''on_monthly'', ''on_invalidated'',
     ''on_start'', ''on_complete'', ''on_enter_location'', ''on_leave_location'', ''phases'',
     ''window'', ''widget'', ''container'', ''vbox'', ''hbox'', ''button'', ''text'', ''icon'',
     ''portrait'', ''scrollarea'', ''flowcontainer'',
     ''scripted_trigger'', ''scripted_effect'',
     ''trait'', ''culture'', ''culture_group'', ''heritage'', ''tradition'', ''religion'',
     ''faith'', ''doctrine'', ''dynasty'', ''house'', ''character'', ''province'', ''holding'',
     ''building'', ''men_at_arms'', ''innovation'', ''law'', ''lifestyle'', ''perk'', ''focus'']"

definition CONTAINER_BLOCKS :: "string list" where
  "CONTAINER_BLOCKS = [''on_game_start'', ''on_game_start_after_lobby'',
     ''on_birth'', ''on_birth_child'', ''on_birth_mother'', ''on_birth_father'',
     ''on_birth_real_father'',
     ''on_death'', ''on_natural_death_second_chance'',
     ''on_join_court'', ''on_leave_court'',
     ''on_imprison'', ''on_release_from_prison'',
     ''on_marriage'', ''on_divorce'', ''on_concubinage'',
     ''on_character_faith_change'', ''on_faith_created'', ''on_faith_conversion'',
     ''on_character_culture_change'',
     ''on_war_started'', ''on_war_ended'', ''on_war_won'', ''on_war_lost'',
     ''on_war_white_peace'',
     ''on_title_gain'', ''on_title_lost'', ''on_title_destroyed'',
     ''on_realm_capital_change'',
     ''on_county_faith_change'', ''on_county_culture_change'',
     ''on_yearly_pulse'', ''on_monthly_pulse'', ''on_weekly_pulse'', ''on_quarterly_pulse'',
     ''five_year_playable_pulse'', ''three_year_playable_pulse'', ''yearly_playable_pulse'',
     ''random_yearly_playable_pulse'', ''random_yearly_everyone_pulse'',
     ''on_prestige_gained'', ''on_piety_gained'', ''on_gold_gained'',
     ''on_army_enter_province'',
     ''on_siege_completion'', ''on_siege_great_success'', ''on_siege_looting'',
     ''on_artifact_created'', ''on_artifact_destroyed'', ''on_artifact_changed_owner'',
     ''on_holy_order_founded'', ''on_holy_order_destroyed'',
     ''on_dynasty_created'', ''on_house_created'']"

text \<open>
  \<open>ITERATOR_PATTERNS\<close>: \<open>^every_[a-z_]+$\<close>, \<open>^random_[a-z_]+$\<close>, \<open>^ordered_[a-z_]+$\<close>,
  \<open>^any_[a-z_]+$\<close>.
\<close>

definition match_iterator :: "string \<Rightarrow> string \<Rightarrow> bool" where
  "match_iterator pre s \<longleftrightarrow>
     starts_with pre s
     \<and> takeWhile is_lower_us (drop (length pre) s) \<noteq> []
     \<and> at_end (dropWhile is_lower_us (drop (length pre) s))"

definition is_iterator_block :: "string \<Rightarrow> bool" where
  "is_iterator_block block_name \<longleftrightarrow>
     (if block_name \<in> set SAFE_LIST_BLOCKS then False
      else match_iterator ''every_'' block_name \<or> match_iterator ''random_'' block_name
         \<or> match_iterator ''ordered_'' block_name \<or> match_iterator ''any_'' block_name)"

definition ATOMIC_FILE_CONTEXTS :: "string list" where
  "ATOMIC_FILE_CONTEXTS = [''decisions'', ''events'', ''character_interactions'', ''schemes'',
     ''activities'']"

definition RECURSIVE_FILE_CONTEXTS :: "string list" where
  "RECURSIVE_FILE_CONTEXTS = [''on_action'', ''scripted_effects'']"

text \<open>\<open>str.lower\<close> on one character below 256.\<close>

definition to_lower :: "char \<Rightarrow> char" where
  "to_lower c =
     (if is_upper c \<or> (CHR 0xC0 \<le> c \<and> c \<le> CHR 0xDE \<and> c \<noteq> CHR 0xD7)
      then char_of (of_char c + (32::nat)) else c)"

definition lower :: "string \<Rightarrow> string" where
  "lower s = map to_lower s"

datatype file_context = Atomic | Recursive | Unknown

definition in_context :: "string \<Rightarrow> string \<Rightarrow> bool" where
  "in_context path_lower ctx \<longleftrightarrow>
     contains (''/'' @ ctx @ ''/'') path_lower \<or> starts_with (ctx @ ''/'') path_lower
     \<or> contains (''/'' @ ctx) path_lower"

definition get_file_context :: "string \<Rightarrow> file_context" where
  "get_file_context file_path =
     (if file_path = [] then Unknown
      else let path_lower = map (\<lambda>c. if c = CHR 0x5C then CHR ''/'' else c) (lower file_path)
           in if list_ex (in_context path_lower) RECURSIVE_FILE_CONTEXTS then Recursive
              else if list_ex (in_context path_lower) ATOMIC_FILE_CONTEXTS then Atomic
              else Unknown)"

definition is_on_action_container :: "string \<Rightarrow> bool" where
  "is_on_action_container block_name \<longleftrightarrow>
     (if starts_with ''on_'' block_name \<and> block_name \<noteq> ''on_actions'' then True
      else if contains ''_pulse'' block_name \<or> contains ''_playable_pulse'' block_name then True
      else False)"

definition is_scripted_effect_container :: "string \<Rightarrow> bool" where
  "is_scripted_effect_container block_name \<longleftrightarrow>
     (if ends_with ''_effect'' block_name \<or> ends_with ''_effects'' block_name then True
      else if starts_with ''fire_'' block_name \<or> starts_with ''setup_'' block_name then True
      else if starts_with ''initialize_'' block_name \<or> starts_with ''init_'' block_name then True
      else if contains ''_intro_'' block_name \<or> contains ''_gamestart_'' block_name then True
      else if contains ''_setup_'' block_name \<or> contains ''_spawn_'' block_name then True
      else False)"

definition gui_containers :: "string list" where
  "gui_containers = [''character_view_bg'', ''character_location_exterior'',
     ''character_religion_interior'', ''religion_interior'', ''religion_holding'',
     ''title_holding'', ''artifact_regional_pattern'', ''character_private'',
     ''culture_levy_big_illustration'', ''culture_knight_big_illustration'',
     ''culture_levy_small_illustration'', ''culture_knight_small_illustration'']"

definition is_gui_background_container :: "string \<Rightarrow> bool" where
  "is_gui_background_container block_name \<longleftrightarrow>
     (if block_name \<in> set gui_containers then True
      else if ends_with ''_bg'' block_name \<or> ends_with ''_illustration'' block_name then True
      else if ends_with ''_interior'' block_name \<or> ends_with ''_exterior'' block_name then True
      else if ends_with ''_pattern'' block_name then True
      else False)"

definition get_top_level_strategy :: "string \<Rightarrow> string \<Rightarrow> top_level_strategy" where
  "get_top_level_strategy block_name file_path =
     (if is_event_block block_name then ATOMIC_ACCUMULATE
      else if is_date_block block_name then ATOMIC_ACCUMULATE
      else if get_file_context file_path = Atomic then ATOMIC_ACCUMULATE
      else if get_file_context file_path = Recursive then MERGEABLE_CONTAINER
      else if is_on_action_container block_name then MERGEABLE_CONTAINER
      else if is_scripted_effect_container block_name then MERGEABLE_CONTAINER
      else if is_gui_background_container block_name then MERGEABLE_CONTAINER
      else ATOMIC_ACCUMULATE)"

text \<open>
  \<open>get_merge_strategy\<close>; the parent's name is an argument the source never reads. Of
  \<open>BLOCK_PATTERNS\<close> the event, number and date patterns return; the title pattern has no
  branch.
\<close>

definition get_merge_strategy :: "string \<Rightarrow> string \<Rightarrow> merge_strategy" where
  "get_merge_strategy block_name parent_name =
     (if is_event_block block_name \<or> is_province_id block_name \<or> is_date_block block_name
        then REPLACE_WHOLE
      else if is_iterator_block block_name then REPLACE_WHOLE
      else if block_name \<in> set SAFE_LIST_BLOCKS then ACCUMULATE_LIST
      else if block_name \<in> set NO_MERGE_BLOCKS then REPLACE_WHOLE
      else if block_name \<in> set CONTAINER_BLOCKS then RECURSIVE
      else if is_on_action_container block_name then RECURSIVE
      else if is_scripted_effect_container block_name then RECURSIVE
      else if is_gui_background_container block_name then RECURSIVE
      else REPLACE_WHOLE)"

definition is_safe_to_add_child :: "string \<Rightarrow> string \<Rightarrow> bool" where
  "is_safe_to_add_child child_name parent_name \<longleftrightarrow>
     (if is_scripted_effect_container parent_name then True
      else if is_on_action_container parent_name then True
      else if is_gui_background_container parent_name then True
      else get_merge_strategy child_name parent_name \<in> {ACCUMULATE_LIST, RECURSIVE})"


section \<open>paradox\_rules.py: \<open>StructureValidator\<close>\<close>

text \<open>
  The message texts of the source are Russian sentences with values formatted into them;
  the model keeps which sentence it is and the values.
\<close>

datatype message =
    Unbalanced_braces
  | Duplicate_event string nat
  | Too_many_options nat

record validation_error =
  ve_path :: string
  ve_message :: message
  ve_severity :: string

text \<open>The tail \<open>\s*=\s*\{\<close> of the block patterns: the text after the brace.\<close>

definition match_assign_open :: "string \<Rightarrow> string option" where
  "match_assign_open s =
     (case lstrip s of
        [] \<Rightarrow> None
      | e # r1 \<Rightarrow>
          if e \<noteq> CHR ''='' then None
          else (case lstrip r1 of
                  [] \<Rightarrow> None
                | b # r2 \<Rightarrow> if b = CHR ''{'' then Some r2 else None))"

lemma length_lstrip_le: "length (lstrip s) \<le> length s"
  unfolding lstrip_def by (rule length_dropWhile_le)

lemma match_assign_open_shorter:
  assumes "match_assign_open s = Some r"
  shows "length r < length s"
proof -
  obtain e r1 where a: "lstrip s = e # r1"
    using assms by (cases "lstrip s") (auto simp: match_assign_open_def)
  obtain b where b: "lstrip r1 = b # r"
    using assms a by (cases "lstrip r1") (auto simp: match_assign_open_def split: if_splits)
  have "length r < length (lstrip r1)" using b by simp
  also have "\<dots> \<le> length r1" by (rule length_lstrip_le)
  also have "\<dots> < length (lstrip s)" using a by simp
  also have "\<dots> \<le> length s" by (rule length_lstrip_le)
  finally show ?thesis .
qed

text \<open>
  \<open>^([a-zA-Z0-9_][a-zA-Z0-9_\.]*)\s*=\s*\{\<close> tried at one place of the text: the name and
  the text after the brace.
\<close>

definition is_name_dot :: "char \<Rightarrow> bool" where
  "is_name_dot c \<longleftrightarrow> is_name_start c \<or> c = CHR ''.''"

definition match_dup_block :: "string \<Rightarrow> (string \<times> string) option" where
  "match_dup_block s =
     (case s of
        [] \<Rightarrow> None
      | c # cs \<Rightarrow>
          if \<not> is_name_start c then None
          else map_option (\<lambda>r. (c # takeWhile is_name_dot cs, r))
                 (match_assign_open (dropWhile is_name_dot cs)))"

lemma match_dup_block_shorter:
  "match_dup_block s = Some (nm, r) \<Longrightarrow> length r < length s"
  unfolding match_dup_block_def
  by (cases s)
     (auto split: if_splits dest!: match_assign_open_shorter
           intro: less_le_trans[OF _ le_SucI[OF length_dropWhile_le]])

text \<open>
  \<open>re.findall\<close> of that pattern with \<open>re.MULTILINE\<close>: a match starts at the start of a
  line only (\<open>bol\<close>), and the search goes on after the brace of a match.
\<close>

function find_dup_blocks :: "bool \<Rightarrow> string \<Rightarrow> string list" where
  "find_dup_blocks bol [] = []"
| "find_dup_blocks bol (c # cs) =
     (if bol then
        (case match_dup_block (c # cs) of
           Some (nm, r) \<Rightarrow> nm # find_dup_blocks False r
         | None \<Rightarrow> find_dup_blocks (c = LF) cs)
      else find_dup_blocks (c = LF) cs)"
  by pat_completeness auto

termination find_dup_blocks
  by (relation "measure (\<lambda>(bol, s). length s)") (auto dest: match_dup_block_shorter)

text \<open>The dictionary \<open>seen\<close>: each name with its number of occurrences, in first-seen order.\<close>

definition count_seen :: "string list \<Rightarrow> (string \<times> nat) list" where
  "count_seen blocks =
     foldl (\<lambda>seen block. AList.update block
                (case map_of seen block of Some n \<Rightarrow> n + 1 | None \<Rightarrow> 1) seen) [] blocks"

definition check_duplicate_blocks :: "string \<Rightarrow> string \<Rightarrow> validation_error list" where
  "check_duplicate_blocks content filename =
     map (\<lambda>(block, count).
            \<lparr>ve_path = filename @ ''.'' @ block, ve_message = Duplicate_event block count,
             ve_severity = ''error''\<rparr>)
       (filter (\<lambda>(block, count). count > 1 \<and> is_event_block block)
          (count_seen (find_dup_blocks True content)))"

text \<open>\<open>([a-z_]+\.\d+)\s*=\s*\{\<close> tried at one place: the event name and the text after the brace.\<close>

definition match_event_at :: "string \<Rightarrow> (string \<times> string) option" where
  "match_event_at s =
     (let a = takeWhile is_lower_us s; r = dropWhile is_lower_us s
      in if a = [] then None
         else (case r of
                 [] \<Rightarrow> None
               | d # r1 \<Rightarrow>
                   if d \<noteq> CHR ''.'' \<or> takeWhile is_digit r1 = [] then None
                   else map_option (\<lambda>r2. (a @ ''.'' @ takeWhile is_digit r1, r2))
                          (match_assign_open (dropWhile is_digit r1))))"

lemma match_event_at_shorter:
  assumes "match_event_at s = Some (nm, r)"
  shows "length r < length s"
proof -
  obtain d r1 where r1: "dropWhile is_lower_us s = d # r1"
    using assms by (cases "dropWhile is_lower_us s") (auto simp: match_event_at_def Let_def split: if_splits)
  have "match_assign_open (dropWhile is_digit r1) = Some r"
    using assms r1 by (auto simp: match_event_at_def Let_def split: if_splits)
  then have "length r < length (dropWhile is_digit r1)" by (rule match_assign_open_shorter)
  also have "\<dots> \<le> length r1" by (rule length_dropWhile_le)
  also have "\<dots> < length (dropWhile is_lower_us s)" using r1 by simp
  also have "\<dots> \<le> length s" by (rule length_dropWhile_le)
  finally show ?thesis .
qed

text \<open>\<open>re.finditer\<close> of that pattern: the matches from left to right, none inside another.\<close>

function event_matches :: "string \<Rightarrow> (string \<times> string) list" where
  "event_matches [] = []"
| "event_matches (c # cs) =
     (case match_event_at (c # cs) of
        Some (nm, r) \<Rightarrow> (nm, r) # event_matches r
      | None \<Rightarrow> event_matches cs)"
  by pat_completeness auto

termination event_matches
  by (relation "measure length") (auto dest: match_event_at_shorter)

text \<open>
  The loop that looks for the end of a block from behind its opening brace: the offset of
  the brace that brings the depth to zero, if there is one.
\<close>

fun scan_close :: "nat \<Rightarrow> string \<Rightarrow> nat option" where
  "scan_close depth [] = None"
| "scan_close depth (c # cs) =
     (if c = CHR ''{'' then map_option Suc (scan_close (Suc depth) cs)
      else if c = CHR ''}'' then
        (if depth - 1 = 0 then Some 0 else map_option Suc (scan_close (depth - 1) cs))
      else map_option Suc (scan_close depth cs))"

text \<open>\<open>content[start:end]\<close>, where \<open>end\<close> stays at \<open>start\<close> when the block is not closed.\<close>

definition event_content :: "string \<Rightarrow> string" where
  "event_content r = (case scan_close 1 r of Some e \<Rightarrow> take e r | None \<Rightarrow> [])"

text \<open>The class \<open>\w\<close> on a character below 256.\<close>

definition is_word_char :: "char \<Rightarrow> bool" where
  "is_word_char c \<longleftrightarrow>
     is_name_start c \<or> c \<in> set [CHR 0xAA, CHR 0xB2, CHR 0xB3, CHR 0xB5, CHR 0xB9, CHR 0xBA,
        CHR 0xBC, CHR 0xBD, CHR 0xBE]
     \<or> (CHR 0xC0 \<le> c \<and> c \<noteq> CHR 0xD7 \<and> c \<noteq> CHR 0xF7)"

text \<open>
  The number of matches of \<open>\boption\s*=\s*\{\<close>; \<open>prev\<close> is the character in front of the
  place looked at.
\<close>

function count_options :: "char option \<Rightarrow> string \<Rightarrow> nat" where
  "count_options prev [] = 0"
| "count_options prev (c # cs) =
     (if (case prev of None \<Rightarrow> True | Some p \<Rightarrow> \<not> is_word_char p)
         \<and> starts_with ''option'' (c # cs) then
        (case match_assign_open (drop 6 (c # cs)) of
           Some r \<Rightarrow> Suc (count_options (Some (CHR ''{'')) r)
         | None \<Rightarrow> count_options (Some c) cs)
      else count_options (Some c) cs)"
  by pat_completeness auto

lemma match_assign_open_drop:
  "match_assign_open (drop n s) = Some r \<Longrightarrow> length r < length s"
  using match_assign_open_shorter[of "drop n s" r] by simp

termination count_options
  by (relation "measure (\<lambda>(prev, s). length s)") (auto dest: match_assign_open_drop)

definition validate_events :: "string \<Rightarrow> string \<Rightarrow> validation_error list" where
  "validate_events content filename =
     map (\<lambda>(event_name, r).
            \<lparr>ve_path = filename @ ''.'' @ event_name,
             ve_message = Too_many_options (count_options None (event_content r)),
             ve_severity = ''warning''\<rparr>)
       (filter (\<lambda>(event_name, r). count_options None (event_content r) > 20)
          (event_matches content))"

text \<open>\<open>validate\<close>: whether there is no error, and the errors followed by the warnings.\<close>

definition validate :: "string \<Rightarrow> string \<Rightarrow> bool \<times> validation_error list" where
  "validate content filename =
     (let errors =
            (if \<not> validate_braces content
             then [\<lparr>ve_path = filename, ve_message = Unbalanced_braces, ve_severity = ''error''\<rparr>]
             else [])
            @ check_duplicate_blocks content filename;
          warnings =
            (if contains ''events'' filename \<or> ends_with ''_events.txt'' filename
             then validate_events content filename else [])
      in (errors = [], errors @ warnings))"

section \<open>structural\_merger.py: parsing a file into blocks\<close>

datatype parsed_block = ParsedBlock
  (pb_name: string)
  (full_text: string)
  (inner_text: string)
  (start_line: nat)
  (end_line: nat)
  (pb_indent: string)
  (pb_is_commented: bool)
  (pb_children: "(string \<times> parsed_block list) list")
  (list_items: "string list")
  (properties: "(string \<times> string) list")

text \<open>
  A dictionary keeps its keys in the order of their first insertion: it is an association
  list, \<open>d[k] = v\<close> is \<open>AList.update\<close> and \<open>d[k].append(v)\<close> (with \<open>d[k] = []\<close> first for a
  new key) is \<open>add_to_group\<close>.
\<close>

fun add_to_group :: "string \<Rightarrow> 'a \<Rightarrow> (string \<times> 'a list) list \<Rightarrow> (string \<times> 'a list) list" where
  "add_to_group k v [] = [(k, [v])]"
| "add_to_group k v ((k', vs) # rest) =
     (if k' = k then (k', vs @ [v]) # rest else (k', vs) # add_to_group k v rest)"

text \<open>\<open>get_all_children\<close>\<close>

definition get_all_children :: "parsed_block \<Rightarrow> string \<Rightarrow> parsed_block list" where
  "get_all_children b k = (case map_of (pb_children b) k of Some l \<Rightarrow> l | None \<Rightarrow> [])"

subsection \<open>The regular expressions of the merger\<close>

text \<open>
  They are applied to \<open>stripped\<close>, one stripped line. \<open>([a-zA-Z0-9_][a-zA-Z0-9_\.:]*)\<close> at
  the start of the text: the name and the text after it.
\<close>

definition match_name :: "string \<Rightarrow> (string \<times> string) option" where
  "match_name s =
     (case s of
        [] \<Rightarrow> None
      | c # cs \<Rightarrow> if is_name_start c
                 then Some (c # takeWhile is_name_char cs, dropWhile is_name_char cs)
                 else None)"

text \<open>\<open>^([a-zA-Z0-9_][a-zA-Z0-9_\.:]*)\s*=\s*\{(.*)$\<close>: the name and the text after the brace.\<close>

definition match_child_block :: "string \<Rightarrow> (string \<times> string) option" where
  "match_child_block s =
     (case match_name s of
        None \<Rightarrow> None
      | Some (nm, r) \<Rightarrow>
          (case match_assign_open r of
             None \<Rightarrow> None
           | Some r2 \<Rightarrow> if LF \<in> set r2 then None else Some (nm, r2)))"

text \<open>\<open>^([a-zA-Z0-9_][a-zA-Z0-9_\.:]*)\s*=\s*\{\<close>, of which only the name is read.\<close>

definition match_top_block :: "string \<Rightarrow> string option" where
  "match_top_block s =
     (case match_name s of
        None \<Rightarrow> None
      | Some (nm, r) \<Rightarrow> map_option (\<lambda>r2. nm) (match_assign_open r))"

text \<open>
  \<open>^([a-zA-Z0-9_][a-zA-Z0-9_\.:]*)\s*=\s*([^{].*)$\<close>: the name and the second group.
  When the first character after the white space is a brace (or there is none), the
  pattern still matches if there was white space, the last white space character
  becoming the first of the group.
\<close>

definition match_child_prop :: "string \<Rightarrow> (string \<times> string) option" where
  "match_child_prop s =
     (case match_name s of
        None \<Rightarrow> None
      | Some (nm, r) \<Rightarrow>
          (case lstrip r of
             [] \<Rightarrow> None
           | e # after \<Rightarrow>
               if e \<noteq> CHR ''='' then None
               else let v = lstrip after;
                        ws = takeWhile is_space after
                    in if LF \<in> set v then None
                       else if v \<noteq> [] \<and> hd v \<noteq> CHR ''{'' then Some (nm, v)
                       else if ws \<noteq> [] then Some (nm, last ws # v)
                       else None))"

text \<open>\<open>^([a-zA-Z0-9_][a-zA-Z0-9_\.:]*)\s*(#.*)?$\<close>: the name.\<close>

definition match_item :: "string \<Rightarrow> string option" where
  "match_item s =
     (case match_name s of
        None \<Rightarrow> None
      | Some (nm, r) \<Rightarrow>
          (case lstrip r of
             [] \<Rightarrow> Some nm
           | c # cs \<Rightarrow> if c = CHR ''#'' \<and> at_end (dropWhile (\<lambda>x. x \<noteq> LF) cs)
                       then Some nm else None))"

text \<open>\<open>^[a-zA-Z0-9_][a-zA-Z0-9_\.:]*$\<close>\<close>

definition is_identifier :: "string \<Rightarrow> bool" where
  "is_identifier s \<longleftrightarrow> (case match_name s of None \<Rightarrow> False | Some (nm, r) \<Rightarrow> at_end r)"

subsection \<open>\<open>_parse_list_items\<close>\<close>

text \<open>The loop over the characters: the items found and the text of \<open>current\<close> at the end.\<close>

fun items_loop :: "int \<Rightarrow> string \<Rightarrow> string list \<Rightarrow> string \<Rightarrow> string list \<times> string" where
  "items_loop depth current items [] = (items, current)"
| "items_loop depth current items (c # cs) =
     (if c = CHR ''{'' then items_loop (depth + 1) (current @ [c]) items cs
      else if c = CHR ''}'' then items_loop (depth - 1) (current @ [c]) items cs
      else if (c = CHR '' '' \<or> c = TAB \<or> c = LF) \<and> depth = 0 then
        (if strip current \<noteq> [] then
           items_loop depth []
             (if CHR ''='' \<notin> set current \<or> CHR ''{'' \<in> set current
              then items @ [strip current] else items) cs
         else items_loop depth current items cs)
      else items_loop depth (current @ [c]) items cs)"

definition parse_list_items :: "string \<Rightarrow> string list" where
  "parse_list_items content =
     (let clean_content = join '' '' (map cut_comment (split_on LF content));
          r = items_loop 0 [] [] clean_content;
          current = snd r;
          items = (if strip current \<noteq> []
                     \<and> (CHR ''='' \<notin> set current \<or> CHR ''{'' \<in> set current)
                   then fst r @ [strip current] else fst r)
      in filter is_identifier items)"

subsection \<open>\<open>_normalize_content\<close> and \<open>_blocks_differ\<close>\<close>

definition normalize_content :: "string \<Rightarrow> string" where
  "normalize_content content =
     join '' '' (filter (\<lambda>l. l \<noteq> []) (map (\<lambda>l. strip (cut_comment l)) (split_on LF content)))"

definition blocks_differ :: "parsed_block \<Rightarrow> parsed_block \<Rightarrow> bool" where
  "blocks_differ base modb \<longleftrightarrow>
     normalize_content (inner_text base) \<noteq> normalize_content (inner_text modb)"

subsection \<open>\<open>_parse_block_contents\<close>\<close>

text \<open>
  \<open>full_text[inner_start:inner_end] if inner_end > inner_start else ""\<close>, with
  \<open>inner_start = full_text.find('{') + 1\<close> and \<open>inner_end = full_text.rfind('}')\<close>.
\<close>

definition inner_of :: "string \<Rightarrow> string" where
  "inner_of t =
     (let inner_start = (case find_char (CHR ''{'') t of Some p \<Rightarrow> p + 1 | None \<Rightarrow> 0)
      in case rfind_char (CHR ''}'') t of
           Some inner_end \<Rightarrow>
             if inner_end > inner_start then take (inner_end - inner_start) (drop inner_start t)
             else []
         | None \<Rightarrow> [])"

text \<open>What a line adds to \<open>brace_depth\<close>: its braces in front of the comment.\<close>

definition line_delta :: "string \<Rightarrow> int" where
  "line_delta l = int (count_list (cut_comment l) (CHR ''{''))
                - int (count_list (cut_comment l) (CHR ''}''))"

text \<open>
  The loop \<open>while i < len(lines) and brace_depth > 0\<close> that collects the lines of a child
  block after its first line: the lines taken and the lines left.
\<close>

fun take_while_open :: "int \<Rightarrow> string list \<Rightarrow> string list \<times> string list" where
  "take_while_open d [] = ([], [])"
| "take_while_open d (l # ls) =
     (if d > 0 then (let r = take_while_open (d + line_delta l) ls in (l # fst r, snd r))
      else ([], l # ls))"

text \<open>
  The loop that collects the lines of a top-level block from its first line on; it tests
  the depth after each line.
\<close>

fun take_block :: "int \<Rightarrow> string list \<Rightarrow> string list \<times> string list" where
  "take_block d [] = ([], [])"
| "take_block d (l # ls) =
     (if d + line_delta l \<le> 0 then ([l], ls)
      else (let r = take_block (d + line_delta l) ls in (l # fst r, snd r)))"

text \<open>The measure of the recursion: the length of the text the lines make.\<close>

definition text_size :: "string list \<Rightarrow> nat" where
  "text_size ls = sum_list (map (\<lambda>l. Suc (length l)) ls)"

lemma text_size_split_on: "text_size (split_on d s) = Suc (length s)"
proof (induction s)
  case Nil
  then show ?case by (simp add: text_size_def)
next
  case (Cons c s)
  obtain l ls where sp: "split_on d s = l # ls"
    by (cases "split_on d s") (auto split: list.splits if_splits elim!: split_on.elims)
  show ?case using Cons sp by (simp add: text_size_def)
qed

lemma text_size_join: "ls \<noteq> [] \<Longrightarrow> text_size ls = Suc (length (join [LF] ls))"
proof (induction ls)
  case Nil
  then show ?case by simp
next
  case (Cons l ls)
  then show ?case by (cases ls) (simp_all add: text_size_def)
qed

lemma take_while_open_append: "fst (take_while_open d ls) @ snd (take_while_open d ls) = ls"
  by (induction d ls rule: take_while_open.induct) (simp_all add: Let_def)

lemma take_block_append: "fst (take_block d ls) @ snd (take_block d ls) = ls"
  by (induction d ls rule: take_block.induct) (simp_all add: Let_def)

lemma text_size_append: "text_size (a @ b) = text_size a + text_size b"
  by (simp add: text_size_def)

lemma find_char_less: "find_char d s = Some k \<Longrightarrow> k < length s"
  by (induction s arbitrary: k) (auto split: if_splits)

lemma inner_of_shorter: "t \<noteq> [] \<Longrightarrow> length (inner_of t) < length t"
proof -
  assume t: "t \<noteq> []"
  show ?thesis
  proof (cases "rfind_char (CHR ''}'') t")
    case None
    then show ?thesis using t by (simp add: inner_of_def Let_def)
  next
    case (Some e)
    then obtain k where "find_char (CHR ''}'') (rev t) = Some k" "e = length t - 1 - k"
      by (auto simp: rfind_char_def)
    then have "e < length t" using t by (cases t) auto
    then show ?thesis using Some t by (auto simp: inner_of_def Let_def)
  qed
qed


text \<open>
  The loop of \<open>_parse_block_contents\<close> over the lines of \<open>inner_text\<close>, from line \<open>i\<close>
  on. It fills the three collections of the block: the children grouped by name, the list
  items and the properties. A child on several lines is parsed by the same loop over its
  own \<open>inner_text\<close>, and then receives the items of \<open>_parse_list_items\<close> in place of the
  ones the loop found.
\<close>

function contents_loop ::
  "string list \<Rightarrow> nat
   \<Rightarrow> (string \<times> parsed_block list) list \<times> string list \<times> (string \<times> string) list
   \<Rightarrow> (string \<times> parsed_block list) list \<times> string list \<times> (string \<times> string) list" where
  "contents_loop [] i acc = acc"
| "contents_loop (line # rest) i (kids, items, props) =
     (let stripped = strip line in
      if stripped = [] \<or> starts_with ''#'' stripped
        then contents_loop rest (Suc i) (kids, items, props)
      else (case match_child_block stripped of
          Some (child_name, r) \<Rightarrow>
            if ends_with ''}'' (rstrip r) then
              contents_loop rest (Suc i)
                (add_to_group child_name
                   (ParsedBlock child_name stripped (strip (butlast (rstrip r))) i i
                      (take (length line - length stripped) line) False []
                      (if strip (butlast (rstrip r)) \<noteq> []
                       then parse_list_items (strip (butlast (rstrip r))) else [])
                      []) kids,
                 items, props)
            else
              contents_loop (snd (take_while_open 1 rest))
                (Suc i + length (fst (take_while_open 1 rest)))
                (add_to_group child_name
                   (let child_text = join [LF] (line # fst (take_while_open 1 rest));
                        sub = contents_loop (split_on LF (inner_of child_text)) 0 ([], [], [])
                    in ParsedBlock child_name child_text (inner_of child_text) i
                         (i + length (fst (take_while_open 1 rest)))
                         (take (length line - length stripped) line) False
                         (fst sub) (parse_list_items (inner_of child_text)) (snd (snd sub)))
                   kids,
                 items, props)
        | None \<Rightarrow>
           (case match_child_prop stripped of
              Some (prop_name, g2) \<Rightarrow>
                contents_loop rest (Suc i)
                  (kids, items,
                   AList.update prop_name
                     (case find_char (CHR ''#'') (strip g2) of
                        Some h \<Rightarrow> strip (take h (strip g2))
                      | None \<Rightarrow> strip g2) props)
            | None \<Rightarrow>
               (case match_item stripped of
                  Some nm \<Rightarrow> contents_loop rest (Suc i) (kids, items @ [nm], props)
                | None \<Rightarrow> contents_loop rest (Suc i) (kids, items, props)))))"
  by pat_completeness auto

lemma text_size_take_while_open:
  "text_size (snd (take_while_open d ls)) \<le> text_size ls"
  "text_size (fst (take_while_open d ls)) \<le> text_size ls"
  using take_while_open_append[of d ls] text_size_append[of "fst (take_while_open d ls)" "snd (take_while_open d ls)"]
  by simp_all

lemma strip_nonempty: "strip l \<noteq> [] \<Longrightarrow> l \<noteq> []"
  by auto

lemma nested_contents_smaller:
  assumes "strip line \<noteq> []"
  shows "text_size (split_on LF (inner_of (join [LF] (line # fst (take_while_open d rest)))))
           < text_size (line # rest)"
proof -
  let ?t = "join [LF] (line # fst (take_while_open d rest))"
  have "line \<noteq> []" using assms by auto
  then have "?t \<noteq> []" by (cases "fst (take_while_open d rest)") auto
  then have "length (inner_of ?t) < length ?t" by (rule inner_of_shorter)
  moreover have "Suc (length ?t) = text_size (line # fst (take_while_open d rest))"
    using text_size_join[of "line # fst (take_while_open d rest)"] by simp
  moreover have "text_size (line # fst (take_while_open d rest)) \<le> text_size (line # rest)"
    using text_size_take_while_open(2)[of d rest] by (simp add: text_size_def)
  ultimately show ?thesis by (simp add: text_size_split_on)
qed

lemma rest_contents_smaller:
  "text_size (snd (take_while_open d rest)) < text_size (line # rest)"
  using text_size_take_while_open(1)[of d rest] by (simp add: text_size_def)

termination contents_loop
  by (relation "measure (\<lambda>(ls, i, acc). text_size ls)")
     (auto simp: nested_contents_smaller rest_contents_smaller, auto simp: text_size_def)

declare contents_loop.simps [simp del]

definition parse_block_contents ::
  "string \<Rightarrow> (string \<times> parsed_block list) list \<times> string list \<times> (string \<times> string) list" where
  "parse_block_contents inner = contents_loop (split_on LF inner) 0 ([], [], [])"


subsection \<open>\<open>_parse_top_level_blocks\<close>\<close>

lemma take_block_shorter: "length (snd (take_block d (l # ls))) \<le> length ls"
proof (induction ls arbitrary: d l)
  case Nil
  then show ?case by (simp add: Let_def)
next
  case (Cons a ls)
  show ?case using Cons[of "d + line_delta l" a] by (simp add: Let_def)
qed

text \<open>
  The \<open>ParsedBlock\<close> made of the lines of a top-level block that starts at line \<open>i\<close>,
  with its contents parsed.
\<close>

definition make_top_block :: "string \<Rightarrow> nat \<Rightarrow> string list \<Rightarrow> string \<Rightarrow> parsed_block" where
  "make_top_block block_name i block_lines first_line =
     (let t = join [LF] block_lines;
          sub = parse_block_contents (inner_of t)
      in ParsedBlock block_name t (inner_of t) i (i + length block_lines - 1)
           (take (length first_line - length (lstrip first_line)) first_line) False
           (fst sub) (fst (snd sub)) (snd (snd sub)))"

text \<open>
  The loop over the lines of the file, from line \<open>i\<close> on: the dictionary \<open>blocks\<close> and
  \<open>header_lines\<close>. A block found under a name that is already a key replaces the block
  of that name.
\<close>

function top_loop ::
  "string list \<Rightarrow> nat \<Rightarrow> (string \<times> parsed_block) list \<Rightarrow> string list
   \<Rightarrow> (string \<times> parsed_block) list \<times> string list" where
  "top_loop [] i blocks header_lines = (blocks, header_lines)"
| "top_loop (line # rest) i blocks header_lines =
     (let stripped = strip line in
      if stripped = [] \<or> starts_with ''#'' stripped
        then top_loop rest (Suc i) blocks
               (if blocks = [] then header_lines @ [line] else header_lines)
      else (case match_top_block stripped of
          Some block_name \<Rightarrow>
            top_loop (snd (take_block 0 (line # rest)))
              (i + length (fst (take_block 0 (line # rest))))
              (AList.update block_name
                 (make_top_block block_name i (fst (take_block 0 (line # rest))) line) blocks)
              header_lines
        | None \<Rightarrow> top_loop rest (Suc i) blocks header_lines))"
  by pat_completeness auto

termination top_loop
  by (relation "measure (\<lambda>(ls, i, blocks, header_lines). length ls)")
     (auto simp: le_imp_less_Suc take_block_shorter simp del: take_block.simps)

declare top_loop.simps [simp del]

definition parse_top_level_blocks :: "string \<Rightarrow> (string \<times> parsed_block) list" where
  "parse_top_level_blocks content =
     (let r = top_loop (split_on LF content) 0 [] [];
          header_lines = snd r
      in if header_lines \<noteq> [] then
           AList.update ''__header__''
             (ParsedBlock ''__header__'' (join [LF] header_lines) [] 0 (length header_lines - 1)
                [] False [] [] [])
             (fst r)
         else fst r)"


section \<open>structural\_merger.py: merging\<close>

text \<open>
  The texts of a change that the source writes in Russian are kept as the sentence and
  the value formatted into it.
\<close>

datatype change_content =
    Text string
  | Skipped_unsafe_block string
  | Validation_message message

record merge_change =
  mc_path :: string
  mc_change_type :: string
  mc_mod_name :: string
  mc_content :: change_content

text \<open>\<open>str(n)\<close> for a number that is not negative.\<close>

fun str_nat :: "nat \<Rightarrow> string" where
  "str_nat n =
     (if n < 10 then [char_of (48 + n)]
      else str_nat (n div 10) @ [char_of (48 + n mod 10)])"

declare str_nat.simps [simp del]

text \<open>The path of a change inside a block: \<open>f"{base_block.name}.{child_name}[{idx}]"\<close>.\<close>

definition child_path :: "string \<Rightarrow> string \<Rightarrow> nat \<Rightarrow> string" where
  "child_path base_name child_name idx = base_name @ ''.'' @ child_name @ ''['' @ str_nat idx @ '']''"

subsection \<open>\<open>_update_list_in_text\<close>\<close>

text \<open>
  \<open>re.search(rf'{re.escape(list_name)}\s*=\s*\{{', text)\<close>: the place of the first
  match, counted from \<open>p\<close>, and the text after the brace.
\<close>

fun search_list_start :: "string \<Rightarrow> nat \<Rightarrow> string \<Rightarrow> (nat \<times> string) option" where
  "search_list_start list_name p [] = None"
| "search_list_start list_name p (c # cs) =
     (if starts_with list_name (c # cs) then
        (case match_assign_open (drop (length list_name) (c # cs)) of
           Some r \<Rightarrow> Some (p, r)
         | None \<Rightarrow> search_list_start list_name (Suc p) cs)
      else search_list_start list_name (Suc p) cs)"

text \<open>The first line that is neither blank nor a comment gives the indentation.\<close>

fun first_indent :: "string list \<Rightarrow> string" where
  "first_indent [] = [TAB, TAB]"
| "first_indent (line # ls) =
     (if strip line \<noteq> [] \<and> \<not> starts_with ''#'' (strip line)
      then take (length line - length (lstrip line)) line
      else first_indent ls)"

text \<open>
  The list is looked for by its name from the start of \<open>text\<close>; \<open>old_items\<close> and
  \<open>old_block_text\<close> are arguments the source never reads. \<open>r\<close> is the text after the
  opening brace, \<open>scan_close 1 r\<close> the offset of the matching brace; without one,
  \<open>end_pos\<close> stays on the opening brace and \<open>inner\<close> is empty.
\<close>

definition update_list_in_text ::
  "string \<Rightarrow> string \<Rightarrow> string list \<Rightarrow> string list \<Rightarrow> string \<Rightarrow> string" where
  "update_list_in_text text list_name old_items new_items old_block_text =
     (case search_list_start list_name 0 text of
        None \<Rightarrow> text
      | Some (start_pos, r) \<Rightarrow>
          let inner = (case scan_close 1 r of Some e \<Rightarrow> take e r | None \<Rightarrow> []);
              after = (case scan_close 1 r of Some e \<Rightarrow> drop (Suc e) r | None \<Rightarrow> CHR ''{'' # r);
              new_inner =
                (if LF \<in> set inner then
                   let ls = split_on LF inner;
                       ind = first_indent ls;
                       new_lines = map (\<lambda>item. ind @ item) new_items
                                   @ map rstrip (filter (\<lambda>l. starts_with ''#'' (strip l)) ls);
                       close_indent = (if strip (last ls) = [] then last ls else [TAB])
                   in [LF] @ join [LF] new_lines @ [LF] @ close_indent
                 else '' '' @ join '' '' new_items @ '' '')
          in take start_pos text @ list_name @ '' = {'' @ new_inner @ ''}'' @ after)"

subsection \<open>\<open>_merge_gui_container\<close>\<close>

text \<open>\<open>s.split()\<close>: the pieces of the text between runs of white space.\<close>

fun words_from :: "string \<Rightarrow> string \<Rightarrow> string list" where
  "words_from cur [] = (if cur = [] then [] else [cur])"
| "words_from cur (c # cs) =
     (if is_space c then (if cur = [] then words_from [] cs else cur # words_from [] cs)
      else words_from (cur @ [c]) cs)"

text \<open>\<open>_normalize_block_content\<close>: here a comment starts at the first \<open>#\<close>, quoted or not.\<close>

definition normalize_block_content :: "string \<Rightarrow> string" where
  "normalize_block_content content =
     join '' '' (words_from []
       (join '' '' (filter (\<lambda>l. l \<noteq> [])
          (map (\<lambda>l. strip (takeWhile (\<lambda>c. c \<noteq> CHR ''#'') l)) (split_on LF content)))))"

text \<open>The children of a block in the order of \<open>children.items()\<close>, each with its name.\<close>

definition all_children :: "parsed_block \<Rightarrow> (string \<times> parsed_block) list" where
  "all_children b = concat (map (\<lambda>(k, l). map (\<lambda>c. (k, c)) l) (pb_children b))"

text \<open>The text of a block with each line stripped and indented anew.\<close>

definition reindent :: "string \<Rightarrow> string \<Rightarrow> string" where
  "reindent ind t =
     join [LF] (map (\<lambda>l. if strip l \<noteq> [] then ind @ strip l else []) (split_on LF (strip t)))"

text \<open>
  The result and the changes recorded. \<open>all_blocks\<close> maps a normalized content to the
  source and the text of the block kept for it.
\<close>

definition merge_gui_container ::
  "parsed_block \<Rightarrow> (string \<times> parsed_block) list \<Rightarrow> string \<times> merge_change list" where
  "merge_gui_container base_block mod_blocks =
     (let from_base =
            foldl (\<lambda>all_blocks (k, c).
                     AList.update (normalize_block_content (inner_text c)) (''base'', full_text c)
                       all_blocks)
              [] (all_children base_block);
          merged =
            foldl (\<lambda>st (m, mod_block).
                     foldl (\<lambda>(all_blocks, chs) (k, c).
                              (AList.update (normalize_block_content (inner_text c)) (m, full_text c)
                                 all_blocks,
                               if normalize_block_content (inner_text c) \<in> fst ` set all_blocks
                               then chs
                               else chs @ [\<lparr>mc_path = pb_name base_block @ ''.'' @ k,
                                            mc_change_type = ''added_gui_block'', mc_mod_name = m,
                                            mc_content = Text (take 50 (full_text c))\<rparr>]))
                       st (all_children mod_block))
              (from_base, []) mod_blocks;
          block_start = (case find_char (CHR ''{'') (full_text base_block) of
                           Some p \<Rightarrow> p + 1 | None \<Rightarrow> 0);
          ind = pb_indent base_block @ [TAB]
      in (take block_start (full_text base_block) @ [LF]
            @ join [LF] (map (\<lambda>(k, (src, t)). reindent ind t) (fst merged))
            @ [LF] @ pb_indent base_block @ ''}'',
          snd merged))"


subsection \<open>\<open>_deep_merge_block\<close>\<close>

text \<open>
  The \<open>ACCUMULATE_LIST\<close> branch for the child at index \<open>idx\<close>: \<open>all_items\<close> starts as
  the items of the base child and receives, mod after mod, each item it does not hold
  yet, with one change recorded per item added.
\<close>

definition add_new_items ::
  "string \<Rightarrow> string \<Rightarrow> string list \<times> merge_change list \<Rightarrow> string list
   \<Rightarrow> string list \<times> merge_change list" where
  "add_new_items path m st items =
     foldl (\<lambda>(all_items, chs) item.
              if item \<in> set all_items then (all_items, chs)
              else (all_items @ [item],
                    chs @ [\<lparr>mc_path = path, mc_change_type = ''added_list_item'',
                             mc_mod_name = m, mc_content = Text item\<rparr>]))
       st items"

definition accumulate_items ::
  "string \<Rightarrow> string \<Rightarrow> nat \<Rightarrow> string list \<Rightarrow> (string \<times> parsed_block) list
   \<Rightarrow> string list \<times> merge_change list" where
  "accumulate_items path child_name idx base_items mod_blocks =
     foldl (\<lambda>st (m, mod_block).
              if idx < length (get_all_children mod_block child_name)
              then add_new_items path m st (list_items (get_all_children mod_block child_name ! idx))
              else st)
       (base_items, []) mod_blocks"

text \<open>
  The \<open>REPLACE_WHOLE\<close> branch: the mods from the last to the first; the first that has a
  child at the index whose content differs from the base child replaces it.
\<close>

fun replace_from_last ::
  "string \<Rightarrow> string \<Rightarrow> nat \<Rightarrow> parsed_block \<Rightarrow> (string \<times> parsed_block) list
   \<Rightarrow> string \<times> merge_change list \<Rightarrow> string \<times> merge_change list" where
  "replace_from_last base_name child_name idx base_child [] st = st"
| "replace_from_last base_name child_name idx base_child ((m, mod_block) # reversed_mods) (t, chs) =
     (if idx < length (get_all_children mod_block child_name)
         \<and> blocks_differ base_child (get_all_children mod_block child_name ! idx)
      then (replace_first t (full_text base_child)
              (full_text (get_all_children mod_block child_name ! idx)),
            chs @ [\<lparr>mc_path = child_path base_name child_name idx,
                     mc_change_type = ''replaced_block'', mc_mod_name = m,
                     mc_content = Text child_name\<rparr>])
      else replace_from_last base_name child_name idx base_child reversed_mods (t, chs))"

text \<open>
  The second loop: the children of the mods at an index the base does not have. The
  state is the text, the changes and \<open>added_blocks\<close>. The branch
  \<open>elif base_count == 0\<close> of the source cannot be reached, \<open>idx >= base_count\<close> holding
  whenever \<open>base_count\<close> is zero.
\<close>

definition add_child_block ::
  "parsed_block \<Rightarrow> string \<Rightarrow> string \<Rightarrow> nat \<Rightarrow> parsed_block
   \<Rightarrow> string \<times> merge_change list \<times> (string \<times> nat) list
   \<Rightarrow> string \<times> merge_change list \<times> (string \<times> nat) list" where
  "add_child_block base_block m child_name idx mod_child st =
     (case st of (t, chs, added_blocks) \<Rightarrow>
        if idx \<ge> length (get_all_children base_block child_name) then
          (if (child_name, idx) \<notin> set added_blocks then
             (if is_safe_to_add_child child_name (pb_name base_block) then
                (case rfind_char (CHR ''}'') t of
                   Some close_brace_pos \<Rightarrow>
                     if close_brace_pos > 0 then
                       (take close_brace_pos t @ [LF] @ pb_indent base_block @ [TAB]
                          @ strip (full_text mod_child) @ [LF] @ drop close_brace_pos t,
                        chs @ [\<lparr>mc_path = child_path (pb_name base_block) child_name idx,
                                 mc_change_type = ''added_child_block'', mc_mod_name = m,
                                 mc_content = Text child_name\<rparr>],
                        added_blocks @ [(child_name, idx)])
                     else st
                 | None \<Rightarrow> st)
              else (t, chs @ [\<lparr>mc_path = child_path (pb_name base_block) child_name idx,
                               mc_change_type = ''skipped_unsafe'', mc_mod_name = m,
                               mc_content = Skipped_unsafe_block child_name\<rparr>],
                    added_blocks))
           else st)
        else st)"

definition add_new_children ::
  "parsed_block \<Rightarrow> (string \<times> parsed_block) list \<Rightarrow> string \<times> merge_change list
   \<Rightarrow> string \<times> merge_change list" where
  "add_new_children base_block mod_blocks st =
     (let r = foldl (\<lambda>st1 (m, mod_block).
                  foldl (\<lambda>st2 (child_name, mod_children_list).
                           foldl (\<lambda>st3 (idx, mod_child).
                                    add_child_block base_block m child_name idx mod_child st3)
                             st2 (enumerate 0 mod_children_list))
                    st1 (pb_children mod_block))
                (fst st, snd st, []) mod_blocks
      in (fst r, fst (snd r)))"

text \<open>
  \<open>_deep_merge_block\<close> returns the merged text of the block; the model returns with it
  the changes the call appends to \<open>self.changes\<close>, in order. \<open>merge_groups\<close> is the loop
  over \<open>base_block.children.items()\<close> and \<open>merge_indexed\<close> the loop over the children of
  one name, from index \<open>idx\<close> on; they read the name of the base block, and their state
  is \<open>result_text\<close> and the changes.
\<close>

fun deep_merge_block ::
    "parsed_block \<Rightarrow> (string \<times> parsed_block) list \<Rightarrow> string \<times> merge_change list"
  and merge_groups ::
    "string \<Rightarrow> (string \<times> parsed_block list) list \<Rightarrow> (string \<times> parsed_block) list
     \<Rightarrow> string \<times> merge_change list \<Rightarrow> string \<times> merge_change list"
  and merge_indexed ::
    "string \<Rightarrow> string \<Rightarrow> parsed_block list \<Rightarrow> nat \<Rightarrow> (string \<times> parsed_block) list
     \<Rightarrow> string \<times> merge_change list \<Rightarrow> string \<times> merge_change list"
where
  "deep_merge_block (ParsedBlock nm ft it sl el ind ic kids items props) mod_blocks =
     (if get_merge_strategy nm [] = REPLACE_WHOLE then
        (if mod_blocks \<noteq> [] then
           (full_text (snd (last mod_blocks)),
            [\<lparr>mc_path = nm, mc_change_type = ''replaced_whole'',
              mc_mod_name = fst (last mod_blocks), mc_content = Text nm\<rparr>])
         else (ft, []))
      else if is_gui_background_container nm then
        merge_gui_container (ParsedBlock nm ft it sl el ind ic kids items props) mod_blocks
      else
        add_new_children (ParsedBlock nm ft it sl el ind ic kids items props) mod_blocks
          (merge_groups nm kids mod_blocks (ft, [])))"
| "merge_groups base_name [] mod_blocks st = st"
| "merge_groups base_name ((child_name, base_children_list) # groups) mod_blocks st =
     merge_groups base_name groups mod_blocks
       (merge_indexed base_name child_name base_children_list 0 mod_blocks st)"
| "merge_indexed base_name child_name [] idx mod_blocks st = st"
| "merge_indexed base_name child_name (base_child # base_children) idx mod_blocks (t, chs) =
     merge_indexed base_name child_name base_children (Suc idx) mod_blocks
       (if get_merge_strategy child_name base_name = ACCUMULATE_LIST then
          (if list_items base_child \<noteq> [] then
             (let r = accumulate_items (child_path base_name child_name idx)
                        child_name idx (list_items base_child) mod_blocks
              in (if length (fst r) > length (list_items base_child)
                  then update_list_in_text t child_name (list_items base_child) (fst r)
                         (full_text base_child)
                  else t,
                  chs @ snd r))
           else (t, chs))
        else if get_merge_strategy child_name base_name = RECURSIVE then
          (let child_mod_blocks =
                 map (\<lambda>(m, mod_block). (m, get_all_children mod_block child_name ! idx))
                   (filter (\<lambda>(m, mod_block). idx < length (get_all_children mod_block child_name))
                      mod_blocks)
           in if child_mod_blocks \<noteq> [] then
                (let r = deep_merge_block base_child child_mod_blocks
                 in (replace_first t (full_text base_child) (fst r), chs @ snd r))
              else (t, chs))
        else if get_merge_strategy child_name base_name = REPLACE_WHOLE then
          replace_from_last base_name child_name idx base_child (rev mod_blocks) (t, chs)
        else (t, chs))"


subsection \<open>\<open>merge_contents\<close>\<close>

text \<open>
  \<open>StructuralMergeResult\<close>. The error texts are the unbalanced-braces sentence with its
  two counts, the sentence of \<open>merge_file\<close> for a file that cannot be read, and the one of
  a caught exception.
\<close>

datatype merge_error =
    Unbalanced_after_merge nat nat
  | Read_error
  | Merge_exception

record structural_merge_result =
  r_success :: bool
  r_content :: string
  r_error :: "merge_error option"
  r_changes :: "merge_change list"

definition failure :: "merge_error \<Rightarrow> structural_merge_result" where
  "failure e = \<lparr>r_success = False, r_content = [], r_error = Some e, r_changes = []\<rparr>"

text \<open>
  The first loop: \<open>all_changes\<close> maps a block name to the changes of the mods, in the
  order of the mods, each a mod name, \<open>new\<close> or \<open>modified\<close>, and the block of the mod.
\<close>

definition collect_changes ::
  "(string \<times> parsed_block) list \<Rightarrow> (string \<times> string) list
   \<Rightarrow> (string \<times> (string \<times> string \<times> parsed_block) list) list" where
  "collect_changes base_blocks mod_contents =
     foldl (\<lambda>all_changes (m, mod_content).
              foldl (\<lambda>ac (block_name, mod_block).
                       if starts_with ''__'' block_name then ac
                       else (case map_of base_blocks block_name of
                               None \<Rightarrow> add_to_group block_name (m, ''new'', mod_block) ac
                             | Some base_block \<Rightarrow>
                                 if blocks_differ base_block mod_block
                                 then add_to_group block_name (m, ''modified'', mod_block) ac
                                 else ac))
                all_changes (parse_top_level_blocks mod_content))
       [] mod_contents"

text \<open>
  One iteration of the second loop. \<open>changes[-1]\<close> raises on an empty list, which the
  source would catch as any exception: \<open>None\<close>. \<open>TopLevelStrategy\<close> has two values, so
  the last \<open>else\<close> of the source (\<open>replaced_fallback\<close>) cannot be reached.
\<close>

definition apply_change ::
  "(string \<times> parsed_block) list \<Rightarrow> string \<Rightarrow> string \<times> merge_change list
   \<Rightarrow> string \<times> (string \<times> string \<times> parsed_block) list
   \<Rightarrow> (string \<times> merge_change list) option" where
  "apply_change base_blocks filename st entry =
     (case (st, entry) of ((result_content, chs), (block_name, changes)) \<Rightarrow>
        (case map_of base_blocks block_name of
           None \<Rightarrow>
             (if changes = [] then None
              else Some (rstrip result_content @ [LF, LF] @ full_text (snd (snd (last changes))),
                         chs @ [\<lparr>mc_path = block_name, mc_change_type = ''added_unique_block'',
                                  mc_mod_name = fst (last changes),
                                  mc_content = Text block_name\<rparr>]))
         | Some base_block \<Rightarrow>
             (if get_top_level_strategy block_name filename = ATOMIC_ACCUMULATE then
                (if changes = [] then None
                 else Some (replace_first result_content (full_text base_block)
                              (full_text (snd (snd (last changes)))),
                            chs @ [\<lparr>mc_path = block_name, mc_change_type = ''replaced_atomic'',
                                     mc_mod_name = fst (last changes),
                                     mc_content = Text block_name\<rparr>]))
              else
                (let r = deep_merge_block base_block (map (\<lambda>(m, ty, b). (m, b)) changes)
                 in Some (replace_first result_content (full_text base_block) (fst r),
                          chs @ snd r)))))"

definition apply_changes ::
  "(string \<times> parsed_block) list \<Rightarrow> string \<Rightarrow> string \<times> merge_change list
   \<Rightarrow> (string \<times> (string \<times> string \<times> parsed_block) list) list
   \<Rightarrow> (string \<times> merge_change list) option" where
  "apply_changes base_blocks filename st all_changes =
     foldl (\<lambda>acc entry. case acc of None \<Rightarrow> None
                                   | Some st1 \<Rightarrow> apply_change base_blocks filename st1 entry)
       (Some st) all_changes"

text \<open>The loop that appends one change for each issue of severity \<open>warning\<close>.\<close>

definition warning_changes :: "validation_error list \<Rightarrow> merge_change list" where
  "warning_changes issues =
     map (\<lambda>issue. \<lparr>mc_path = ve_path issue, mc_change_type = ''validation_warning'',
                    mc_mod_name = [], mc_content = Validation_message (ve_message issue)\<rparr>)
       (filter (\<lambda>issue. ve_severity issue = ''warning'') issues)"

text \<open>
  \<open>merge_contents\<close>; \<open>self_changes\<close> is the list \<open>self.changes\<close> of the merger on
  entry, which \<open>merge_file\<close> empties before each call and which is empty in a new merger.
\<close>

definition merge_contents ::
  "merge_change list \<Rightarrow> string \<Rightarrow> (string \<times> string) list \<Rightarrow> string
   \<Rightarrow> structural_merge_result" where
  "merge_contents self_changes base_content mod_contents filename =
     (let base = replace_crlf base_content;
          mods = map (\<lambda>(m, c). (m, replace_crlf c)) mod_contents;
          base_blocks = parse_top_level_blocks base;
          all_changes = collect_changes base_blocks mods
      in case apply_changes base_blocks filename (base, self_changes) all_changes of
           None \<Rightarrow> failure Merge_exception
         | Some (result_content, chs) \<Rightarrow>
             let issues = snd (validate result_content filename);
                 chs1 = chs @ warning_changes issues
             in if \<not> validate_braces result_content then
                  failure (Unbalanced_after_merge (fst (count_braces result_content))
                             (snd (count_braces result_content)))
                else \<lparr>r_success = True, r_content = result_content, r_error = None,
                      r_changes = chs1\<rparr>)"

section \<open>Notions for the statements about the merger\<close>

text \<open>
  The top-level blocks of a file in the order of the text: what the loop of
  \<open>_parse_top_level_blocks\<close> finds, before the dictionary keeps one block per name.
\<close>

function top_scan :: "string list \<Rightarrow> nat \<Rightarrow> (string \<times> parsed_block) list" where
  "top_scan [] i = []"
| "top_scan (line # rest) i =
     (if strip line = [] \<or> starts_with ''#'' (strip line) then top_scan rest (Suc i)
      else (case match_top_block (strip line) of
          Some block_name \<Rightarrow>
            (block_name, make_top_block block_name i (fst (take_block 0 (line # rest))) line)
            # top_scan (snd (take_block 0 (line # rest)))
                (i + length (fst (take_block 0 (line # rest))))
        | None \<Rightarrow> top_scan rest (Suc i)))"
  by pat_completeness auto

termination top_scan
  by (relation "measure (\<lambda>(ls, i). length ls)")
     (auto simp: le_imp_less_Suc take_block_shorter simp del: take_block.simps)

declare top_scan.simps [simp del]

text \<open>
  The mods whose block of the given name differs from the base block under
  normalization, in the order of the mods, each with that block of its own. The text of
  a mod is read as \<open>merge_contents\<close> reads it, with each carriage return before a line feed removed.
\<close>

definition differing_blocks ::
  "parsed_block \<Rightarrow> string \<Rightarrow> (string \<times> string) list \<Rightarrow> (string \<times> parsed_block) list" where
  "differing_blocks B n mods =
     concat (map (\<lambda>(m, c). case map_of (parse_top_level_blocks (replace_crlf c)) n of
                              Some M \<Rightarrow> if blocks_differ B M then [(m, M)] else []
                            | None \<Rightarrow> [])
               mods)"

text \<open>
  A mod changes no block but the one named \<open>n\<close>: each of its other blocks is skipped for
  its name or has a base block of its name with the same normalized content.
\<close>

definition changes_only ::
  "(string \<times> parsed_block) list \<Rightarrow> string \<Rightarrow> string \<Rightarrow> bool" where
  "changes_only base_blocks n c \<longleftrightarrow>
     list_all (\<lambda>(k, b). k = n \<or> starts_with ''__'' k
                  \<or> (case map_of base_blocks k of
                        Some B \<Rightarrow> \<not> blocks_differ B b | None \<Rightarrow> False))
       (parse_top_level_blocks (replace_crlf c))"


text \<open>
  An event of the base that one mod changes in its title and a later mod in its option.
\<close>

definition S2_base :: string where
  "S2_base =
     ''europe.0001 = {'' @ [LF] @ [TAB] @ ''type = character_event'' @ [LF]
       @ [TAB] @ ''title = base_title'' @ [LF]
       @ [TAB] @ ''option = { name = a }'' @ [LF] @ ''}''"

definition S2_A :: string where
  "S2_A =
     ''europe.0001 = {'' @ [LF] @ [TAB] @ ''type = character_event'' @ [LF]
       @ [TAB] @ ''title = modA_title'' @ [LF]
       @ [TAB] @ ''option = { name = a }'' @ [LF] @ ''}''"

definition S2_B :: string where
  "S2_B =
     ''europe.0001 = {'' @ [LF] @ [TAB] @ ''type = character_event'' @ [LF]
       @ [TAB] @ ''title = base_title'' @ [LF]
       @ [TAB] @ ''option = { name = b }'' @ [LF] @ ''}''"


text \<open>
  A base with the container \<open>on_game_start\<close> twice, with the same text, and a mod that adds
  an item to its list.
\<close>

definition twice_base :: string where
  "twice_base =
     ''on_game_start = {'' @ [LF] @ [TAB] @ ''on_actions = { a }'' @ [LF] @ ''}'' @ [LF]
     @ ''on_game_start = {'' @ [LF] @ [TAB] @ ''on_actions = { a }'' @ [LF] @ ''}''"

definition twice_mod :: string where
  "twice_mod = ''on_game_start = {'' @ [LF] @ [TAB] @ ''on_actions = { a b }'' @ [LF] @ ''}''"

section \<open>Properties of the parser and the serializer\<close>

text \<open>
  C6, evaluated on the code: \<open>parse\<close> has no case for a commented block (the test for
  \<open>#name = {\<close> ends in \<open>pass\<close>), so the three lines of a commented block become three
  top-level \<open>COMMENT\<close> nodes and no node has \<open>is_commented\<close> set.
\<close>

theorem parse_commented_block_lines:
  "children (parse (''#test.1 = {'' @ [LF] @ ''#'' @ [TAB] @ ''type = x'' @ [LF] @ ''#}'')) =
     [PdxNode COMMENT [] ''#test.1 = {'' [] [] False ''#test.1 = {'' [],
      PdxNode COMMENT [] (''#'' @ [TAB] @ ''type = x'') [] [] False (''#'' @ [TAB] @ ''type = x'') [],
      PdxNode COMMENT [] ''#}'' [] [] False ''#}'' []]"
  by code_simp

subsection \<open>Lines with one name and an operator\<close>


















lemma rstrip_Nil [simp]: "rstrip [] = []"
  by (simp add: rstrip_def)









subsection \<open>Texts of comment lines and blank lines\<close>

lemma split_on_not_Nil [simp]: "split_on d s \<noteq> []"
  by (induction s) (auto split: list.splits)

lemma split_on_lines_mem:
  "l \<in> set (split_on d s) \<Longrightarrow> x \<in> set l \<Longrightarrow> x \<in> set s \<and> x \<noteq> d"
proof (induction s arbitrary: l)
  case Nil
  then show ?case by simp
next
  case (Cons c s)
  obtain m ms where sp: "split_on d s = m # ms"
    by (cases "split_on d s") simp_all
  show ?case
  proof (cases "c = d")
    case True
    then have "l = [] \<or> l \<in> set (split_on d s)" using Cons.prems(1) by simp
    then have "l \<in> set (split_on d s)" using Cons.prems(2) by auto
    from Cons.IH[OF this Cons.prems(2)] show ?thesis by simp
  next
    case False
    then have "l = c # m \<or> l \<in> set ms" using Cons.prems(1) sp by simp
    then show ?thesis
    proof
      assume l: "l = c # m"
      show ?thesis
      proof (cases "x = c")
        case True
        then show ?thesis using False by simp
      next
        case False
        then have "x \<in> set m" using Cons.prems(2) l by simp
        moreover have "m \<in> set (split_on d s)" using sp by simp
        ultimately show ?thesis using Cons.IH by fastforce
      qed
    next
      assume "l \<in> set ms"
      then have "l \<in> set (split_on d s)" using sp by simp
      from Cons.IH[OF this Cons.prems(2)] show ?thesis by simp
    qed
  qed
qed

lemma split_on_lines_set: "l \<in> set (split_on d s) \<Longrightarrow> set l \<subseteq> set s - {d}"
  using split_on_lines_mem by fastforce














subsection \<open>Brace counts of the serializer's output\<close>



lemma count_braces_Nil [simp]: "count_braces [] = (0, 0)"
  by (simp add: count_braces_def cut_comment_def find_comment_pos_def)










lemma count_list_tabs [simp]: "c \<noteq> TAB \<Longrightarrow> count_list (replicate k TAB) c = 0"
  by (induction k) auto










section \<open>Properties of the validator\<close>

lemma count_seen_snoc:
  "count_seen (xs @ [x]) =
     AList.update x (case map_of (count_seen xs) x of Some n \<Rightarrow> n + 1 | None \<Rightarrow> 1) (count_seen xs)"
  by (simp add: count_seen_def)


lemma map_of_count_seen:
  "map_of (count_seen xs) b = (if b \<in> set xs then Some (count_list xs b) else None)"
proof (induction xs rule: rev_induct)
  case Nil
  then show ?case by (simp add: count_seen_def)
next
  case (snoc x xs)
  show ?case
    unfolding count_seen_snoc update_conv' using snoc
    by (auto simp: count_list_0_iff)
qed

lemma count_seen_mem:
  "b \<in> set xs \<Longrightarrow> (b, count_list xs b) \<in> set (count_seen xs)"
  using map_of_count_seen[of xs b] by (auto dest: map_of_SomeD)





section \<open>Properties of the top-level parse\<close>

lemma top_loop_fst:
  "fst (top_loop ls i blocks header_lines)
     = foldl (\<lambda>d (k, b). AList.update k b d) blocks (top_scan ls i)"
proof (induction ls i blocks header_lines rule: top_loop.induct)
  case (1 i blocks header_lines)
  then show ?case by (simp add: top_loop.simps top_scan.simps)
next
  case (2 line rest i blocks header_lines)
  show ?case
  proof (cases "strip line = [] \<or> starts_with ''#'' (strip line)")
    case True
    then show ?thesis
      using 2(1)[OF refl True]
      by (simp add: top_loop.simps(2)[of line rest] top_scan.simps(2)[of line rest] Let_def)
  next
    case False
    show ?thesis
    proof (cases "match_top_block (strip line)")
      case None
      then show ?thesis
        using 2(2)[OF refl False None] False
        by (simp add: top_loop.simps(2)[of line rest] top_scan.simps(2)[of line rest] Let_def)
    next
      case (Some block_name)
      then show ?thesis
        using 2(3)[OF refl False Some] False
        by (simp add: top_loop.simps(2)[of line rest] top_scan.simps(2)[of line rest] Let_def)
    qed
  qed
qed

lemma map_of_foldl_update:
  "map_of (foldl (\<lambda>d (k, b). AList.update k b d) d xs) n
     = (case map_of (rev xs) n of Some b \<Rightarrow> Some b | None \<Rightarrow> map_of d n)"
proof (induction xs arbitrary: d)
  case Nil
  then show ?case by simp
next
  case (Cons x xs)
  obtain k b where x: "x = (k, b)" by (cases x)
  show ?case
    unfolding x using Cons[of "AList.update k b d"]
    by (auto simp: update_conv' map_add_def split: option.splits)
qed

lemma distinct_foldl_update:
  "distinct (map fst d) \<Longrightarrow> distinct (map fst (foldl (\<lambda>d (k, b). AList.update k b d) d xs))"
  by (induction xs arbitrary: d) (auto simp: distinct_update)

lemma parse_top_level_distinct: "distinct (map fst (parse_top_level_blocks content))"
  unfolding parse_top_level_blocks_def Let_def top_loop_fst
  by (simp add: distinct_update distinct_foldl_update)


subsection \<open>The changes collected from the mods\<close>

lemma collect_inner_unchanged:
  assumes "list_all (\<lambda>(k, b). starts_with ''__'' k
                  \<or> (case map_of bb k of Some B \<Rightarrow> \<not> blocks_differ B b | None \<Rightarrow> False)) mb"
  shows "foldl (\<lambda>ac (block_name, mod_block).
                       if starts_with ''__'' block_name then ac
                       else (case map_of bb block_name of
                               None \<Rightarrow> add_to_group block_name (m, ''new'', mod_block) ac
                             | Some base_block \<Rightarrow>
                                 if blocks_differ base_block mod_block
                                 then add_to_group block_name (m, ''modified'', mod_block) ac
                                 else ac)) ac mb = ac"
  using assms by (induction mb arbitrary: ac) (auto split: option.splits)

lemma collect_inner_one:
  assumes "distinct (map fst mb)"
    and "list_all (\<lambda>(k, b). k = n \<or> starts_with ''__'' k
                  \<or> (case map_of bb k of Some B \<Rightarrow> \<not> blocks_differ B b | None \<Rightarrow> False)) mb"
    and "\<not> starts_with ''__'' n" "map_of bb n = Some B"
  shows "foldl (\<lambda>ac (block_name, mod_block).
                       if starts_with ''__'' block_name then ac
                       else (case map_of bb block_name of
                               None \<Rightarrow> add_to_group block_name (m, ''new'', mod_block) ac
                             | Some base_block \<Rightarrow>
                                 if blocks_differ base_block mod_block
                                 then add_to_group block_name (m, ''modified'', mod_block) ac
                                 else ac)) ac mb
         = (case map_of mb n of
              Some M \<Rightarrow> if blocks_differ B M then add_to_group n (m, ''modified'', M) ac else ac
            | None \<Rightarrow> ac)"
  using assms(1,2)
proof (induction mb arbitrary: ac)
  case Nil
  then show ?case by simp
next
  case (Cons x mb)
  obtain k b where x: "x = (k, b)" by (cases x)
  show ?case
  proof (cases "k = n")
    case True
    have "n \<notin> fst ` set mb" using Cons.prems(1) x True by auto
    then have rest: "list_all (\<lambda>(k, b). starts_with ''__'' k
                  \<or> (case map_of bb k of Some B \<Rightarrow> \<not> blocks_differ B b | None \<Rightarrow> False)) mb"
      using Cons.prems(2) unfolding list_all_iff by force
    show ?thesis
      unfolding x using True assms(3,4)
      by (simp add: collect_inner_unchanged[OF rest])
  next
    case False
    have "distinct (map fst mb)" using Cons.prems(1) by simp
    moreover have "list_all (\<lambda>(k, b). k = n \<or> starts_with ''__'' k
                  \<or> (case map_of bb k of Some B \<Rightarrow> \<not> blocks_differ B b | None \<Rightarrow> False)) mb"
      using Cons.prems(2) by simp
    ultimately show ?thesis
      unfolding x using False Cons.IH Cons.prems(2) x
      by (auto split: option.splits)
  qed
qed


lemma add_to_group_single:
  "add_to_group n x (if xs = [] then [] else [(n, xs)]) = [(n, xs @ [x])]"
  by simp

lemma collect_changes_only:
  assumes "\<not> starts_with ''__'' n" "map_of bb n = Some B"
    and "list_all (\<lambda>(m, c). changes_only bb n c) mods"
  shows "collect_changes bb (map (\<lambda>(m, c). (m, replace_crlf c)) mods)
           = (if differing_blocks B n mods = [] then []
              else [(n, map (\<lambda>(m, M). (m, ''modified'', M)) (differing_blocks B n mods))])"
proof -
  let ?inner = "\<lambda>m. (\<lambda>ac (block_name, mod_block).
                       if starts_with ''__'' block_name then ac
                       else (case map_of bb block_name of
                               None \<Rightarrow> add_to_group block_name (m, ''new'', mod_block) ac
                             | Some base_block \<Rightarrow>
                                 if blocks_differ base_block mod_block
                                 then add_to_group block_name (m, ''modified'', mod_block) ac
                                 else ac))"
  let ?step = "\<lambda>all_changes (m, mod_content).
                 foldl (?inner m) all_changes (parse_top_level_blocks mod_content)"
  let ?G = "\<lambda>xs. if xs = [] then [] else [(n, xs)]"
  have gen: "foldl ?step (?G xs) (map (\<lambda>(m, c). (m, replace_crlf c)) ms)
               = ?G (xs @ map (\<lambda>(m, M). (m, ''modified'', M)) (differing_blocks B n ms))"
    if "list_all (\<lambda>(m, c). changes_only bb n c) ms" for ms xs
    using that
  proof (induction ms arbitrary: xs)
    case Nil
    then show ?case by (simp add: differing_blocks_def)
  next
    case (Cons x ms)
    obtain m c where x: "x = (m, c)" by (cases x)
    have co: "changes_only bb n c" and rest: "list_all (\<lambda>(m, c). changes_only bb n c) ms"
      using Cons.prems x by simp_all
    let ?mb = "parse_top_level_blocks (replace_crlf c)"
    have one: "foldl (?inner m) (?G xs) ?mb
         = (case map_of ?mb n of
              Some M \<Rightarrow> if blocks_differ B M then add_to_group n (m, ''modified'', M) (?G xs)
                        else ?G xs
            | None \<Rightarrow> ?G xs)"
      by (rule collect_inner_one[OF parse_top_level_distinct co[unfolded changes_only_def] assms(1,2)])
    have d: "differing_blocks B n (x # ms)
               = (case map_of ?mb n of
                    Some M \<Rightarrow> if blocks_differ B M then [(m, M)] else []
                  | None \<Rightarrow> []) @ differing_blocks B n ms"
      by (simp add: differing_blocks_def x)
    show ?case
    proof (cases "map_of ?mb n")
      case None
      then show ?thesis using Cons.IH[OF rest, of xs] one d by (simp add: x)
    next
      case (Some M)
      show ?thesis
      proof (cases "blocks_differ B M")
        case True
        have "foldl (?inner m) (?G xs) ?mb = ?G (xs @ [(m, ''modified'', M)])"
          using one Some True by simp
        then show ?thesis
          using Cons.IH[OF rest, of "xs @ [(m, ''modified'', M)]"] d Some True
          by (simp add: x)
      next
        case False
        then show ?thesis using Cons.IH[OF rest, of xs] one d Some by (simp add: x)
      qed
    qed
  qed
  show ?thesis
    unfolding collect_changes_def using gen[OF assms(3), of "[]"] by simp
qed

lemma collect_changes_unchanged:
  assumes "list_all (\<lambda>(m, c). list_all (\<lambda>(k, b). starts_with ''__'' k
              \<or> (case map_of bb k of Some B \<Rightarrow> \<not> blocks_differ B b | None \<Rightarrow> False))
              (parse_top_level_blocks c)) mods"
  shows "collect_changes bb mods = []"
  unfolding collect_changes_def using assms
proof (induction mods)
  case Nil
  then show ?case by simp
next
  case (Cons x mods)
  obtain m c where x: "x = (m, c)" by (cases x)
  show ?case
    using Cons unfolding x by (simp add: collect_inner_unchanged)
qed


subsection \<open>\<open>merge_contents\<close> on one changed block\<close>

lemma apply_changes_Nil: "apply_changes bb fn st [] = Some st"
  by (simp add: apply_changes_def)

lemma apply_changes_atomic:
  assumes "map_of bb n = Some B" "get_top_level_strategy n fn = ATOMIC_ACCUMULATE" "xs \<noteq> []"
  shows "apply_changes bb fn (t, chs) [(n, xs)]
           = Some (replace_first t (full_text B) (full_text (snd (snd (last xs)))),
                   chs @ [\<lparr>mc_path = n, mc_change_type = ''replaced_atomic'',
                            mc_mod_name = fst (last xs), mc_content = Text n\<rparr>])"
  using assms by (simp add: apply_changes_def apply_change_def)

lemma unchanged_blocks:
  assumes "distinct (map fst bb)"
  shows "list_all (\<lambda>(k, b). starts_with ''__'' k
              \<or> (case map_of bb k of Some B \<Rightarrow> \<not> blocks_differ B b | None \<Rightarrow> False)) bb"
  unfolding list_all_iff using assms by (auto simp: blocks_differ_def)

text \<open>
  The dictionary keeps, for a name other than \<open>__header__\<close>, the last block of that name
  in the order of the text.
\<close>

lemma parse_top_level_last:
  "distinct (map fst (parse_top_level_blocks content))
   \<and> (n \<noteq> ''__header__'' \<and> top_scan (split_on LF content) 0 = xs @ (n, b) # ys
        \<and> n \<notin> fst ` set ys
      \<longrightarrow> map_of (parse_top_level_blocks content) n = Some b)"
proof (intro conjI impI)
  show "distinct (map fst (parse_top_level_blocks content))"
    by (rule parse_top_level_distinct)
next
  assume a: "n \<noteq> ''__header__'' \<and> top_scan (split_on LF content) 0 = xs @ (n, b) # ys
        \<and> n \<notin> fst ` set ys"
  have e: "top_scan (split_on LF content) 0 = xs @ (n, b) # ys" using a by simp
  have "map_of (rev ys) n = None" using a by (simp add: map_of_eq_None_iff)
  then have r: "map_of (rev (xs @ (n, b) # ys)) n = Some b"
    by (simp add: map_add_def)
  have "map_of (fst (top_loop (split_on LF content) 0 [] [])) n
          = (case map_of (rev (top_scan (split_on LF content) 0)) n of
               Some b \<Rightarrow> Some b | None \<Rightarrow> map_of [] n)"
    unfolding top_loop_fst by (rule map_of_foldl_update)
  also have "\<dots> = Some b" unfolding e r by simp
  finally have "map_of (fst (top_loop (split_on LF content) 0 [] [])) n = Some b" .
  then show "map_of (parse_top_level_blocks content) n = Some b"
    using a by (simp add: parse_top_level_blocks_def Let_def update_conv')
qed

text \<open>
  C5 (amended). Where the text of every mod equals the text of the base once each
  carriage return before a line feed is removed, \<open>merge_contents\<close> rewrites nothing: if
  the braces of the base are balanced it returns success with the normalized base as
  content, and the changes are those the merger held on entry followed by one change
  for each warning of the validator; if they are not balanced it returns the failure of
  the brace check.
\<close>

theorem merge_contents_identity:
  assumes "list_all (\<lambda>(m, c). replace_crlf c = replace_crlf base) mods"
  shows "merge_contents self_changes base mods filename
           = (if validate_braces (replace_crlf base)
              then \<lparr>r_success = True, r_content = replace_crlf base, r_error = None,
                    r_changes = self_changes
                      @ warning_changes (snd (validate (replace_crlf base) filename))\<rparr>
              else failure (Unbalanced_after_merge (fst (count_braces (replace_crlf base)))
                              (snd (count_braces (replace_crlf base)))))"
proof -
  let ?bb = "parse_top_level_blocks (replace_crlf base)"
  have "list_all (\<lambda>(m, c). list_all (\<lambda>(k, b). starts_with ''__'' k
              \<or> (case map_of ?bb k of Some B \<Rightarrow> \<not> blocks_differ B b | None \<Rightarrow> False))
              (parse_top_level_blocks c)) (map (\<lambda>(m, c). (m, replace_crlf c)) mods)"
    using assms unchanged_blocks[OF parse_top_level_distinct[of "replace_crlf base"]]
    unfolding list_all_iff[of _ mods] list_all_iff[of _ "map (\<lambda>(m, c). (m, replace_crlf c)) mods"]
    by auto
  then have "collect_changes ?bb (map (\<lambda>(m, c). (m, replace_crlf c)) mods) = []"
    by (rule collect_changes_unchanged)
  then show ?thesis
    by (simp add: merge_contents_def Let_def apply_changes_Nil)
qed

text \<open>
  C1 (amended). Let the base have a block \<open>B\<close> under a name \<open>n\<close> that does not start with
  two underscores and whose top-level strategy is \<open>ATOMIC_ACCUMULATE\<close>, let the mods
  change no other block, and let at least one mod have a block \<open>n\<close> that differs from
  \<open>B\<close> under normalization. Let \<open>r\<close> be the normalized base with the first occurrence of
  the full text of \<open>B\<close> replaced by the full text of the block of the last such mod. If
  the braces of \<open>r\<close> are balanced, \<open>merge_contents\<close> returns success with content \<open>r\<close>,
  and records one \<open>replaced_atomic\<close> change under the name of that mod, followed by the
  warnings of the validator; otherwise it returns the failure of the brace check.
\<close>

theorem merge_contents_atomic:
  assumes "map_of (parse_top_level_blocks (replace_crlf base)) n = Some B"
    and "\<not> starts_with ''__'' n"
    and "get_top_level_strategy n filename = ATOMIC_ACCUMULATE"
    and "list_all (\<lambda>(m, c). changes_only (parse_top_level_blocks (replace_crlf base)) n c) mods"
    and "differing_blocks B n mods \<noteq> []"
    and "r = replace_first (replace_crlf base) (full_text B)
               (full_text (snd (last (differing_blocks B n mods))))"
  shows "merge_contents self_changes base mods filename
           = (if validate_braces r
              then \<lparr>r_success = True, r_content = r, r_error = None,
                    r_changes = self_changes
                      @ [\<lparr>mc_path = n, mc_change_type = ''replaced_atomic'',
                           mc_mod_name = fst (last (differing_blocks B n mods)),
                           mc_content = Text n\<rparr>]
                      @ warning_changes (snd (validate r filename))\<rparr>
              else failure (Unbalanced_after_merge (fst (count_braces r))
                              (snd (count_braces r))))"
proof -
  let ?bb = "parse_top_level_blocks (replace_crlf base)"
  let ?D = "differing_blocks B n mods"
  let ?xs = "map (\<lambda>(m, M). (m, ''modified'', M)) ?D"
  have c: "collect_changes ?bb (map (\<lambda>(m, c). (m, replace_crlf c)) mods) = [(n, ?xs)]"
    using collect_changes_only[OF assms(2,1,4)] assms(5) by simp
  have xs: "?xs \<noteq> []" using assms(5) by simp
  have l: "last ?xs = (fst (last ?D), ''modified'', snd (last ?D))"
    using assms(5) by (simp add: last_map case_prod_beta)
  have "apply_changes ?bb filename (replace_crlf base, self_changes) [(n, ?xs)]
          = Some (r, self_changes @ [\<lparr>mc_path = n, mc_change_type = ''replaced_atomic'',
                           mc_mod_name = fst (last ?D), mc_content = Text n\<rparr>])"
    unfolding apply_changes_atomic[OF assms(1,3) xs] l assms(6) by simp
  then show ?thesis
    unfolding merge_contents_def Let_def c by simp
qed


lemma apply_changes_container:
  assumes "map_of bb n = Some B" "get_top_level_strategy n fn \<noteq> ATOMIC_ACCUMULATE"
  shows "apply_changes bb fn (t, chs) [(n, xs)]
           = Some (replace_first t (full_text B)
                     (fst (deep_merge_block B (map (\<lambda>(m, ty, b). (m, b)) xs))),
                   chs @ snd (deep_merge_block B (map (\<lambda>(m, ty, b). (m, b)) xs)))"
  using assms by (simp add: apply_changes_def apply_change_def Let_def)

lemma modified_back:
  "map (\<lambda>(m, ty, b). (m, b)) (map (\<lambda>(m, M). (m, ''modified'', M)) D) = D"
  by (induction D) auto

text \<open>
  C10 (as amended). Let the blocks found in the base, in the order of the text, be \<open>xs\<close>,
  then a block \<open>B\<close> named \<open>n\<close>, then blocks \<open>ys\<close> none of which is named \<open>n\<close>; so \<open>B\<close> is the
  last block of its name, and \<open>xs\<close> may hold earlier ones. Then the dictionary maps \<open>n\<close>
  to \<open>B\<close>. When the mods change no other block and at least one of them has a block \<open>n\<close>
  that differs from \<open>B\<close>, the merge is decided on \<open>B\<close> alone: the new text is the block of
  the last such mod if the strategy of \<open>n\<close> is atomic, and the deep merge of \<open>B\<close> with
  the blocks of those mods otherwise. It is put in place of the first occurrence of the
  full text of \<open>B\<close> in the base, wherever that is, and the result goes through the
  validator and the brace check.
\<close>

theorem merge_reads_last_block:
  assumes "top_scan (split_on LF (replace_crlf base)) 0 = xs @ (n, B) # ys"
    and "n \<notin> fst ` set ys"
    and "\<not> starts_with ''__'' n"
    and "list_all (\<lambda>(m, c). changes_only (parse_top_level_blocks (replace_crlf base)) n c) mods"
    and "differing_blocks B n mods \<noteq> []"
    and "new = (if get_top_level_strategy n filename = ATOMIC_ACCUMULATE
                then (full_text (snd (last (differing_blocks B n mods))),
                      [\<lparr>mc_path = n, mc_change_type = ''replaced_atomic'',
                         mc_mod_name = fst (last (differing_blocks B n mods)),
                         mc_content = Text n\<rparr>])
                else deep_merge_block B (differing_blocks B n mods))"
    and "r = replace_first (replace_crlf base) (full_text B) (fst new)"
  shows "map_of (parse_top_level_blocks (replace_crlf base)) n = Some B
       \<and> merge_contents self_changes base mods filename
           = (if validate_braces r
              then \<lparr>r_success = True, r_content = r, r_error = None,
                    r_changes = self_changes @ snd new
                      @ warning_changes (snd (validate r filename))\<rparr>
              else failure (Unbalanced_after_merge (fst (count_braces r))
                              (snd (count_braces r))))"
proof -
  let ?bb = "parse_top_level_blocks (replace_crlf base)"
  let ?D = "differing_blocks B n mods"
  let ?xs = "map (\<lambda>(m, M). (m, ''modified'', M)) ?D"
  have nh: "n \<noteq> ''__header__''"
    using assms(3) by (auto simp: starts_with_def)
  have B: "map_of ?bb n = Some B"
    by (rule parse_top_level_last[THEN conjunct2, THEN mp,
               OF conjI[OF nh conjI[OF assms(1,2)]]])
  have c: "collect_changes ?bb (map (\<lambda>(m, c). (m, replace_crlf c)) mods) = [(n, ?xs)]"
    using collect_changes_only[OF assms(3) B assms(4)] assms(5) by simp
  have xs: "?xs \<noteq> []" using assms(5) by simp
  have l: "last ?xs = (fst (last ?D), ''modified'', snd (last ?D))"
    using assms(5) by (simp add: last_map case_prod_beta)
  have a: "apply_changes ?bb filename (replace_crlf base, self_changes) [(n, ?xs)]
          = Some (r, self_changes @ snd new)"
  proof (cases "get_top_level_strategy n filename = ATOMIC_ACCUMULATE")
    case True
    show ?thesis
      unfolding apply_changes_atomic[OF B True xs] l assms(7) assms(6) using True by simp
  next
    case False
    show ?thesis
      unfolding apply_changes_container[OF B False] modified_back assms(7) assms(6)
      using False by simp
  qed
  have "merge_contents self_changes base mods filename
           = (if validate_braces r
              then \<lparr>r_success = True, r_content = r, r_error = None,
                    r_changes = self_changes @ snd new
                      @ warning_changes (snd (validate r filename))\<rparr>
              else failure (Unbalanced_after_merge (fst (count_braces r))
                              (snd (count_braces r))))"
    unfolding merge_contents_def Let_def c a by simp
  then show ?thesis using B by simp
qed

text \<open>
  The theorem at a base that holds the container \<open>on_game_start\<close> twice with the same
  text: the dictionary keeps the second block, which starts at line 3, and the list item
  of the mod is added to the first.
\<close>

theorem merge_reads_last_block_witness:
  "merge_contents [] twice_base [(''A'', twice_mod)] []
     = \<lparr>r_success = True,
        r_content = ''on_game_start = {'' @ [LF] @ [TAB] @ ''on_actions = { a b }'' @ [LF] @ ''}''
          @ [LF] @ ''on_game_start = {'' @ [LF] @ [TAB] @ ''on_actions = { a }'' @ [LF] @ ''}'',
        r_error = None,
        r_changes = [\<lparr>mc_path = ''on_game_start.on_actions[0]'',
                        mc_change_type = ''added_list_item'', mc_mod_name = ''A'',
                        mc_content = Text ''b''\<rparr>]\<rparr>
   \<and> map_option start_line (map_of (parse_top_level_blocks (replace_crlf twice_base))
        ''on_game_start'') = Some 3"
proof -
  let ?n = "''on_game_start''"
  let ?mods = "[(''A'', twice_mod)]"
  let ?sc = "top_scan (split_on LF (replace_crlf twice_base)) 0"
  let ?b1 = "snd (hd ?sc)"
  let ?B = "snd (last ?sc)"
  let ?new = "if get_top_level_strategy ?n [] = ATOMIC_ACCUMULATE
                then (full_text (snd (last (differing_blocks ?B ?n ?mods))),
                      [\<lparr>mc_path = ?n, mc_change_type = ''replaced_atomic'',
                         mc_mod_name = fst (last (differing_blocks ?B ?n ?mods)),
                         mc_content = Text ?n\<rparr>])
                else deep_merge_block ?B (differing_blocks ?B ?n ?mods)"
  let ?r = "replace_first (replace_crlf twice_base) (full_text ?B) (fst ?new)"
  let ?out = "''on_game_start = {'' @ [LF] @ [TAB] @ ''on_actions = { a b }'' @ [LF] @ ''}''
          @ [LF] @ ''on_game_start = {'' @ [LF] @ [TAB] @ ''on_actions = { a }'' @ [LF] @ ''}''"
  have h1: "?sc = [(?n, ?b1)] @ (?n, ?B) # []" by code_simp
  have h2: "?n \<notin> fst ` set ([] :: (string \<times> parsed_block) list)" by simp
  have h3: "\<not> starts_with ''__'' ?n" by code_simp
  have h4: "list_all (\<lambda>(m, c). changes_only (parse_top_level_blocks (replace_crlf twice_base)) ?n c)
              ?mods" by code_simp
  have h5: "differing_blocks ?B ?n ?mods \<noteq> []" by code_simp
  have e1: "?r = ?out" by code_simp
  have e2: "validate_braces ?out" by code_simp
  have e3: "snd ?new = [\<lparr>mc_path = ''on_game_start.on_actions[0]'',
                        mc_change_type = ''added_list_item'', mc_mod_name = ''A'',
                        mc_content = Text ''b''\<rparr>]" by code_simp
  have e4: "warning_changes (snd (validate ?out [])) = []" by code_simp
  have e5: "start_line ?B = 3" by code_simp
  have "map_of (parse_top_level_blocks (replace_crlf twice_base)) ?n = Some ?B
       \<and> merge_contents [] twice_base ?mods []
           = (if validate_braces ?r
              then \<lparr>r_success = True, r_content = ?r, r_error = None,
                    r_changes = [] @ snd ?new @ warning_changes (snd (validate ?r []))\<rparr>
              else failure (Unbalanced_after_merge (fst (count_braces ?r))
                              (snd (count_braces ?r))))"
    by (rule merge_reads_last_block[OF h1 h2 h3 h4 h5 refl refl])
  then show ?thesis
    unfolding e1 e3 using e2 e4 e5 by simp
qed

text \<open>
  The claim as it stands fails: with two blocks \<open>a\<close> of the same text in the base and a
  mod that changes \<open>a\<close>, the rewrite lands on the earlier block and the last one stays.
\<close>

theorem merge_rewrites_earlier_duplicate:
  "merge_contents [] (''a = {'' @ [LF] @ ''x'' @ [LF] @ ''}'' @ [LF]
                        @ ''a = {'' @ [LF] @ ''x'' @ [LF] @ ''}'')
     [(''A'', ''a = {'' @ [LF] @ ''y'' @ [LF] @ ''}'')] []
   = \<lparr>r_success = True,
      r_content = ''a = {'' @ [LF] @ ''y'' @ [LF] @ ''}'' @ [LF]
                    @ ''a = {'' @ [LF] @ ''x'' @ [LF] @ ''}'',
      r_error = None,
      r_changes = [\<lparr>mc_path = ''a'', mc_change_type = ''replaced_atomic'',
                      mc_mod_name = ''A'', mc_content = Text ''a''\<rparr>]\<rparr>"
  by code_simp

theorem merge_contents_identity_witness:
  "merge_contents [] (''a = {'' @ [CR, LF] @ ''x'' @ [CR, LF] @ ''}'')
     [(''A'', ''a = {'' @ [LF] @ ''x'' @ [LF] @ ''}'')] []
   = \<lparr>r_success = True, r_content = ''a = {'' @ [LF] @ ''x'' @ [LF] @ ''}'',
      r_error = None, r_changes = []\<rparr>"
proof -
  let ?b = "''a = {'' @ [CR, LF] @ ''x'' @ [CR, LF] @ ''}''"
  let ?m = "''a = {'' @ [LF] @ ''x'' @ [LF] @ ''}''"
  have h: "list_all (\<lambda>(m, c). replace_crlf c = replace_crlf ?b) [(''A'', ?m)]" by code_simp
  have e1: "replace_crlf ?b = ?m" by code_simp
  have e2: "validate_braces ?m" by code_simp
  have e3: "warning_changes (snd (validate ?m [])) = []" by code_simp
  show ?thesis
    using merge_contents_identity[OF h, of "[]" "[]"] unfolding e1 using e2 e3 by simp
qed

text \<open>
  The claim as it stands fails: an unbalanced base merged with an identical mod is
  refused.
\<close>

theorem merge_identity_unbalanced:
  "merge_contents [] (''a = {'' @ [LF] @ ''x'') [(''A'', ''a = {'' @ [LF] @ ''x'')] []
   = \<lparr>r_success = False, r_content = [], r_error = Some (Unbalanced_after_merge 1 0),
      r_changes = []\<rparr>"
  by code_simp

theorem merge_contents_atomic_witness:
  "merge_contents [] S2_base [(''A'', S2_A), (''B'', S2_B)] []
   = \<lparr>r_success = True, r_content = S2_B, r_error = None,
      r_changes = [\<lparr>mc_path = ''europe.0001'', mc_change_type = ''replaced_atomic'',
                      mc_mod_name = ''B'', mc_content = Text ''europe.0001''\<rparr>]\<rparr>"
proof -
  let ?n = "''europe.0001''"
  let ?mods = "[(''A'', S2_A), (''B'', S2_B)]"
  let ?B = "the (map_of (parse_top_level_blocks (replace_crlf S2_base)) ?n)"
  have h1: "map_of (parse_top_level_blocks (replace_crlf S2_base)) ?n = Some ?B" by code_simp
  have h2: "\<not> starts_with ''__'' ?n" by code_simp
  have h3: "get_top_level_strategy ?n [] = ATOMIC_ACCUMULATE" by code_simp
  have h4: "list_all (\<lambda>(m, c). changes_only (parse_top_level_blocks (replace_crlf S2_base)) ?n c)
              ?mods" by code_simp
  have h5: "differing_blocks ?B ?n ?mods \<noteq> []" by code_simp
  have e1: "replace_first (replace_crlf S2_base) (full_text ?B)
              (full_text (snd (last (differing_blocks ?B ?n ?mods)))) = S2_B" by code_simp
  have e2: "fst (last (differing_blocks ?B ?n ?mods)) = ''B''" by code_simp
  have e3: "validate_braces S2_B" by code_simp
  have e4: "warning_changes (snd (validate S2_B [])) = []" by code_simp
  show ?thesis
    using merge_contents_atomic[OF h1 h2 h3 h4 h5 e1[symmetric], of "[]"] e3 e4
    unfolding e2 by simp
qed

text \<open>
  The claim as it stands fails: a mod whose block is not closed differs from the base
  block, its strategy is atomic, and the merge is refused; no text is returned and no
  change is recorded.
\<close>

theorem merge_atomic_unbalanced:
  "get_top_level_strategy ''a'' [] = ATOMIC_ACCUMULATE
   \<and> merge_contents [] (''a = {'' @ [LF] @ ''x'' @ [LF] @ ''}'')
        [(''A'', ''a = {'' @ [LF] @ ''y'')] []
     = \<lparr>r_success = False, r_content = [], r_error = Some (Unbalanced_after_merge 1 0),
        r_changes = []\<rparr>"
  by code_simp

end
